theory Spec2Isabelle
  imports Complex_Main "HOL-Library.Multiset" "HOL-Library.Word"
begin

chapter \<open>The program\<close>

section \<open>Tensor entries\<close>

text \<open>
  The entries of a TensorFlow float tensor: a real number, or one of the IEEE special
  values that a division by zero or an overflow produces. Arithmetic on numbers is exact
  (rounding and the sign of zero are not modelled; the range of the float format is
  modelled where the program squares tensor entries, in \<open>tf.norm\<close>); the special values
  follow IEEE 754: \<open>0 / 0\<close> is \<open>NaN\<close>, \<open>x / 0\<close> is an infinity for \<open>x \<noteq> 0\<close>, and \<open>NaN\<close>
  absorbs.
\<close>

datatype tfloat = Num real | PosInf | NegInf | NaN

instantiation tfloat :: comm_monoid_add
begin

definition zero_tfloat :: tfloat where
  "zero_tfloat = Num 0"

fun plus_tfloat :: "tfloat \<Rightarrow> tfloat \<Rightarrow> tfloat" where
  "plus_tfloat (Num x) (Num y) = Num (x + y)"
| "plus_tfloat NaN _ = NaN"
| "plus_tfloat _ NaN = NaN"
| "plus_tfloat PosInf NegInf = NaN"
| "plus_tfloat NegInf PosInf = NaN"
| "plus_tfloat PosInf _ = PosInf"
| "plus_tfloat _ PosInf = PosInf"
| "plus_tfloat NegInf _ = NegInf"
| "plus_tfloat _ NegInf = NegInf"

instance
proof
  fix u v w :: tfloat
  show "0 + u = u"
    by (cases u) (simp_all add: zero_tfloat_def)
  show "u + v = v + u"
    by (cases u; cases v) simp_all
  show "(u + v) + w = u + (v + w)"
    by (cases u; cases v; cases w) simp_all
qed

end

instantiation tfloat :: times
begin

fun times_tfloat :: "tfloat \<Rightarrow> tfloat \<Rightarrow> tfloat" where
  "times_tfloat (Num x) (Num y) = Num (x * y)"
| "times_tfloat NaN _ = NaN"
| "times_tfloat _ NaN = NaN"
| "times_tfloat (Num x) PosInf = (if x = 0 then NaN else if 0 < x then PosInf else NegInf)"
| "times_tfloat (Num x) NegInf = (if x = 0 then NaN else if 0 < x then NegInf else PosInf)"
| "times_tfloat PosInf (Num y) = (if y = 0 then NaN else if 0 < y then PosInf else NegInf)"
| "times_tfloat NegInf (Num y) = (if y = 0 then NaN else if 0 < y then NegInf else PosInf)"
| "times_tfloat PosInf PosInf = PosInf"
| "times_tfloat PosInf NegInf = NegInf"
| "times_tfloat NegInf PosInf = NegInf"
| "times_tfloat NegInf NegInf = PosInf"

instance ..

end

text \<open>\<open>a / b\<close> on tensor entries (Python's \<open>/\<close> on tensors is \<open>tf.truediv\<close>).\<close>

fun tf_truediv :: "tfloat \<Rightarrow> tfloat \<Rightarrow> tfloat" where
  "tf_truediv (Num x) (Num y) =
     (if y = 0 then (if x = 0 then NaN else if 0 < x then PosInf else NegInf)
      else Num (x / y))"
| "tf_truediv NaN _ = NaN"
| "tf_truediv _ NaN = NaN"
| "tf_truediv (Num x) PosInf = Num 0"
| "tf_truediv (Num x) NegInf = Num 0"
| "tf_truediv PosInf (Num y) = (if 0 \<le> y then PosInf else NegInf)"
| "tf_truediv NegInf (Num y) = (if 0 \<le> y then NegInf else PosInf)"
| "tf_truediv PosInf PosInf = NaN"
| "tf_truediv PosInf NegInf = NaN"
| "tf_truediv NegInf PosInf = NaN"
| "tf_truediv NegInf NegInf = NaN"

fun tf_sqrt :: "tfloat \<Rightarrow> tfloat" where
  "tf_sqrt (Num x) = (if x < 0 then NaN else Num (sqrt x))"
| "tf_sqrt PosInf = PosInf"
| "tf_sqrt NegInf = NaN"
| "tf_sqrt NaN = NaN"

text \<open>
  The range of a float format (the dtype of a tensor): its smallest positive normal
  number and its largest finite number. A result of greater magnitude overflows to an
  infinity. A result of smaller magnitude underflows: it is taken to zero (a denormal
  result, where the hardware keeps one, has lost its precision). In between the result
  is kept as it is.
\<close>

record float_format =
  fmt_tiny :: real
  fmt_huge :: real

fun to_format :: "float_format \<Rightarrow> tfloat \<Rightarrow> tfloat" where
  "to_format fmt (Num x) =
     (if fmt_huge fmt < \<bar>x\<bar> then (if 0 < x then PosInf else NegInf)
      else if \<bar>x\<bar> < fmt_tiny fmt then Num 0
      else Num x)"
| "to_format fmt PosInf = PosInf"
| "to_format fmt NegInf = NegInf"
| "to_format fmt NaN = NaN"

text \<open>\<open>tf.float32\<close>, the default dtype of the weights of a model.\<close>

definition float32_format :: float_format where
  "float32_format = \<lparr>fmt_tiny = 1 / 2 ^ 126, fmt_huge = (2 - 1 / 2 ^ 23) * 2 ^ 127\<rparr>"

section \<open>Tensors of rank 1 and 2\<close>

text \<open>
  A rank-1 tensor is the list of its entries, a rank-2 tensor the list of its rows. The
  tensors of the program are rectangular; the theorems below say so where they need it.
\<close>

type_synonym vec = "tfloat list"
type_synonym mat = "tfloat list list"

definition is_mat :: "nat \<Rightarrow> nat \<Rightarrow> 'a list list \<Rightarrow> bool" where
  "is_mat r c m = (length m = r \<and> list_all (\<lambda>row. length row = c) m)"

definition zeros :: "nat \<Rightarrow> nat \<Rightarrow> mat" where
  "zeros r c = replicate r (replicate c 0)"

definition vadd :: "vec \<Rightarrow> vec \<Rightarrow> vec" where
  "vadd u v = map2 (+) u v"

definition madd :: "mat \<Rightarrow> mat \<Rightarrow> mat" where
  "madd a b = map2 vadd a b"

definition ncols :: "'a list list \<Rightarrow> nat" where
  "ncols m = (case m of [] \<Rightarrow> 0 | row # _ \<Rightarrow> length row)"

definition column :: "'a list list \<Rightarrow> nat \<Rightarrow> 'a list" where
  "column m j = map (\<lambda>row. row ! j) m"

text \<open>\<open>tf.transpose\<close> of a rank-2 tensor with at least one row.\<close>

definition tf_transpose :: "'a list list \<Rightarrow> 'a list list" where
  "tf_transpose m = map (column m) [0..<ncols m]"

definition dot :: "vec \<Rightarrow> vec \<Rightarrow> tfloat" where
  "dot u v = sum_list (map2 (*) u v)"

text \<open>\<open>tf.matmul(a, b, transpose_b=True)\<close>: entry \<open>(i, j)\<close> is row \<open>i\<close> of \<open>a\<close> times row \<open>j\<close> of \<open>b\<close>.\<close>

definition matmul_transpose_b :: "mat \<Rightarrow> mat \<Rightarrow> mat" where
  "matmul_transpose_b a b = map (\<lambda>row. map (dot row) b) a"

definition matmul :: "mat \<Rightarrow> mat \<Rightarrow> mat" where
  "matmul a b = matmul_transpose_b a (tf_transpose b)"

text \<open>\<open>tf.reduce_sum(t, axis=0)\<close> of a rank-3 tensor of shape \<open>(b, p, p)\<close>.\<close>

definition reduce_sum_axis0 :: "nat \<Rightarrow> mat list \<Rightarrow> mat" where
  "reduce_sum_axis0 p ms = foldl madd (zeros p p) ms"

definition mdiv :: "mat \<Rightarrow> tfloat \<Rightarrow> mat" where
  "mdiv m d = map (map (\<lambda>x. tf_truediv x d)) m"

text \<open>\<open>tf.reduce_mean(t, axis=0)\<close> of a rank-3 tensor of shape \<open>(b, p, p)\<close>.\<close>

definition reduce_mean_axis0 :: "nat \<Rightarrow> mat list \<Rightarrow> mat" where
  "reduce_mean_axis0 p ms = mdiv (reduce_sum_axis0 p ms) (Num (real (length ms)))"

text \<open>
  \<open>tf.concat(hs, axis=-1)\<close> of rank-3 tensors of shapes \<open>(b, p, s\<^sub>w)\<close>, one per weight
  variable \<open>w\<close>: row \<open>i\<close> of sample \<open>s\<close> is the concatenation of the rows \<open>i\<close> of sample
  \<open>s\<close> of all the tensors.
\<close>

definition concat_last :: "nat \<Rightarrow> nat \<Rightarrow> mat list list \<Rightarrow> mat list" where
  "concat_last b p hs =
     map (\<lambda>s. map (\<lambda>i. concat (map (\<lambda>h. h ! s ! i) hs)) [0..<p]) [0..<b]"

section \<open>Errors and datasets\<close>

text \<open>
  \<open>TypeError\<close> is what \<open>raise ArgumentError("...")\<close> raises: the constructor of
  \<open>argparse.ArgumentError\<close> takes \<open>(argument, message)\<close>, so building the exception
  from one string fails before the \<open>raise\<close> happens. \<open>InvalidArgumentError\<close> is
  TensorFlow's error for a reshape to a size that does not fit and for a concatenation
  of tensors whose other dimensions differ, \<open>ValueError\<close> the one of \<open>tf.concat\<close> of
  no tensor, \<open>OutOfRangeError\<close> the one of \<open>next\<close> on an exhausted dataset iterator.
\<close>

datatype error = ShapeError | TypeError | InvalidArgumentError | ValueError | OutOfRangeError

definition bind_result :: "error + 'a \<Rightarrow> ('a \<Rightarrow> error + 'b) \<Rightarrow> error + 'b" where
  "bind_result r f = (case r of Inl e \<Rightarrow> Inl e | Inr x \<Rightarrow> f x)"

text \<open>The results of a list comprehension: the first error is the one raised.\<close>

fun sequence_results :: "(error + 'a) list \<Rightarrow> error + 'a list" where
  "sequence_results [] = Inr []"
| "sequence_results (r # rs) =
     bind_result r (\<lambda>x. bind_result (sequence_results rs) (\<lambda>xs. Inr (x # xs)))"

text \<open>
  A \<open>tf.data.Dataset\<close>: the sequence of its elements (each a batch, when the dataset is
  batched), replayable, with the cast to the dtype of its first component
  (\<open>tf.cast(_, dtype=dataset.element_spec[0].dtype)\<close>, entry by entry) and the
  size it was batched with (the attribute \<open>_batch_size\<close>). A batch of
  samples is the pair of its inputs and its labels, as the source indexes it
  (\<open>batch[0]\<close>, \<open>batch[1]\<close>).
\<close>

record 'e dataset =
  is_batched :: bool
  ds_batch_size :: nat
  element_cast :: "tfloat \<Rightarrow> tfloat"
  batches :: "'e list"

type_synonym ('x, 'y) samples = "'x list \<times> 'y list"

text \<open>
  Modelled from the spec: \<open>assert_batched_dataset\<close> of \<open>deel.influenciae.common\<close> is
  not among the sources. Sections 4.1 and 7: a \<open>ShapeError\<close> when an input dataset is
  not batched.
\<close>

definition assert_batched_dataset :: "'e dataset \<Rightarrow> error + unit" where
  "assert_batched_dataset ds = (if is_batched ds then Inr () else Inl ShapeError)"

text \<open>\<open>tf.reshape(t, (-1, p))\<close>: the entries of \<open>t\<close> in order, in rows of \<open>p\<close>.\<close>

definition reshape_rows :: "nat \<Rightarrow> 'a list list \<Rightarrow> error + 'a list list" where
  "reshape_rows p t =
     (let flat = concat t in
      if p = 0 \<or> length flat mod p \<noteq> 0 then Inl InvalidArgumentError
      else Inr (map (\<lambda>i. take p (drop (i * p) flat)) [0..<length flat div p]))"

section \<open>The model (external)\<close>

text \<open>
  The \<open>InfluenceModel\<close> is not among the sources; its methods are parameters.
  \<open>batch_jacobian_tensor xs ys\<close> and \<open>batch_jacobian ds\<close> are the per-sample gradients
  of a batch and of a dataset, \<open>batch_gradient ds\<close> the gradients per batch.
  \<open>tape_jacobian xs ys\<close> is \<open>tape_hess.jacobian(grads, weights)\<close> for the \<open>grads\<close> of
  the batch \<open>(xs, ys)\<close>: one tensor per weight variable, already in the shape
  \<open>(len(grads), nb_params, -1)\<close> the source reshapes it to. \<open>tape_jacobian_dataset\<close> is
  the same for the \<open>grads\<close> of a whole dataset.
\<close>

record ('x, 'y) influence_model =
  nb_params :: nat
  batch_jacobian_tensor :: "'x list \<Rightarrow> 'y list \<Rightarrow> mat"
  batch_jacobian :: "('x, 'y) samples dataset \<Rightarrow> mat"
  batch_gradient :: "('x, 'y) samples dataset \<Rightarrow> mat"
  tape_jacobian :: "'x list \<Rightarrow> 'y list \<Rightarrow> mat list list"
  tape_jacobian_dataset :: "('x, 'y) samples dataset \<Rightarrow> mat list list"

section \<open>ExactIHVP\<close>

record ('x, 'y) exact_ihvp =
  model :: "('x, 'y) influence_model"
  train_set :: "('x, 'y) samples dataset option"
  parallel_iter :: "nat option"
  inv_hessian :: mat
  hessian :: "mat option"

text \<open>
  The loop of \<open>_compute_inv_hessian\<close> (\<open>parallel_iter is None\<close>): \<open>hess\<close> and the
  \<open>tf.int32\<close> counter \<open>nb_elt\<close> after the batches.
\<close>

fun hessian_loop ::
  "('x, 'y) influence_model \<Rightarrow> (tfloat \<Rightarrow> tfloat) \<Rightarrow> mat \<times> 32 word \<Rightarrow>
   ('x, 'y) samples list \<Rightarrow> mat \<times> 32 word" where
  "hessian_loop m cast (hess, nb_elt) [] = (hess, nb_elt)"
| "hessian_loop m cast (hess, nb_elt) (batched_samples # rest) =
     (let batch_size = (word_of_nat (length (fst batched_samples)) :: 32 word);
          nb_elt' = nb_elt + batch_size;
          grads = batch_jacobian_tensor m (fst batched_samples) (snd batched_samples);
          curr_hess = tape_jacobian m (fst batched_samples) (snd batched_samples);
          curr_hess = concat_last (length grads) (nb_params m) curr_hess;
          curr_hess = reduce_sum_axis0 (nb_params m) curr_hess;
          curr_hess = map (map cast) curr_hess
      in hessian_loop m cast (madd hess curr_hess, nb_elt') rest)"

text \<open>
  The per-sample Hessians of a batch, of shape \<open>(len(grads), nb_params, nb_params)\<close>:
  \<open>curr_hess\<close> after the \<open>tf.concat\<close> of the loop body.
\<close>

definition batch_hessians :: "('x, 'y) influence_model \<Rightarrow> ('x, 'y) samples \<Rightarrow> mat list" where
  "batch_hessians m b =
     concat_last (length (batch_jacobian_tensor m (fst b) (snd b))) (nb_params m)
       (tape_jacobian m (fst b) (snd b))"

text \<open>The mean Hessian of \<open>_compute_inv_hessian\<close>, before the pseudo-inverse.\<close>

definition mean_hessian ::
  "('x, 'y) influence_model \<Rightarrow> nat option \<Rightarrow> ('x, 'y) samples dataset \<Rightarrow> mat" where
  "mean_hessian m par ds =
     (case par of
        None \<Rightarrow>
          (let (hess, nb_elt) =
                 hessian_loop m (element_cast ds) (zeros (nb_params m) (nb_params m), 0)
                   (batches ds)
           in mdiv hess (Num (real_of_int (sint nb_elt))))
      | Some _ \<Rightarrow>
          (let grads = (if ds_batch_size ds = 1
                        then batch_gradient m ds else batch_jacobian m ds);
               hess = tape_jacobian_dataset m ds;
               hessian = concat_last (length grads) (nb_params m) hess
           in reduce_mean_axis0 (nb_params m) hessian))"

definition compute_inv_hessian ::
  "(mat \<Rightarrow> mat) \<Rightarrow> ('x, 'y) influence_model \<Rightarrow> nat option \<Rightarrow>
   ('x, 'y) samples dataset \<Rightarrow> mat" where
  "compute_inv_hessian pinv m par ds = pinv (mean_hessian m par ds)"

text \<open>
  \<open>ExactIHVP.__init__\<close>, with \<open>tf.linalg.pinv\<close> as the parameter \<open>pinv\<close>. The base
  class's constructor checks a dataset that is given. On the Hessian branch the source
  sets no \<open>parallel_iter\<close> attribute; the field is \<open>None\<close> there.
\<close>

definition ExactIHVP_init ::
  "(mat \<Rightarrow> mat) \<Rightarrow> ('x, 'y) influence_model \<Rightarrow> ('x, 'y) samples dataset option \<Rightarrow>
   mat option \<Rightarrow> nat option \<Rightarrow> error + ('x, 'y) exact_ihvp" where
  "ExactIHVP_init pinv m train_dataset train_hessian par =
     (case (case train_dataset of None \<Rightarrow> Inr () | Some ds \<Rightarrow> assert_batched_dataset ds) of
        Inl e \<Rightarrow> Inl e
      | Inr _ \<Rightarrow>
          (case train_dataset of
             Some ds \<Rightarrow>
               Inr \<lparr>model = m, train_set = train_dataset, parallel_iter = par,
                    inv_hessian = compute_inv_hessian pinv m par ds, hessian = None\<rparr>
           | None \<Rightarrow>
               (case train_hessian of
                  Some h \<Rightarrow>
                    Inr \<lparr>model = m, train_set = train_dataset, parallel_iter = None,
                         inv_hessian = pinv h, hessian = Some h\<rparr>
                | None \<Rightarrow> Inl TypeError)))"

text \<open>
  The mean Hessian in the words of the specification (section 4.1): for each batch the
  per-sample Hessians are summed over the batch and cast to the accumulator's dtype, the
  casts are added up, and the sum is divided by the total sample count.
\<close>

definition streamed_mean_hessian ::
  "('x, 'y) influence_model \<Rightarrow> ('x, 'y) samples dataset \<Rightarrow> mat" where
  "streamed_mean_hessian m ds =
     (let n = sum_list (map (\<lambda>b. length (fst b)) (batches ds)) in
      map (\<lambda>i. map (\<lambda>j.
          tf_truediv
            (sum_list (map (\<lambda>b. element_cast ds
               (sum_list (map (\<lambda>h. h ! i ! j) (batch_hessians m b)))) (batches ds)))
            (Num (real n)))
        [0..<nb_params m]) [0..<nb_params m])"

section \<open>ExactIHVP: the queries\<close>

text \<open>\<open>tf.concat(ts, axis=0)\<close> of rank-2 tensors: the rows of all of them, in order.\<close>

definition tf_concat_axis0 :: "mat list \<Rightarrow> error + mat" where
  "tf_concat_axis0 ts =
     (case ts of
        [] \<Rightarrow> Inl ValueError
      | t # _ \<Rightarrow>
          if list_all (\<lambda>u. ncols u = ncols t) ts then Inr (concat ts)
          else Inl InvalidArgumentError)"

text \<open>
  The \<open>group\<close> argument of \<open>compute_ihvp\<close> (\<open>grp\<close> below): a dataset of samples (what
  \<open>use_gradient=True\<close> reads) or a dataset of vectors (what \<open>use_gradient=False\<close>
  reads), each element a rank-2 tensor of one vector per row. The elements of a dataset
  of vectors have rank 2 by their type, so \<open>len(group.element_spec.shape) == 2\<close> holds.
\<close>

datatype ('x, 'y) ihvp_group = Points "('x, 'y) samples dataset" | Vectors "mat dataset"

fun ExactIHVP_compute_ihvp ::
  "('x, 'y) exact_ihvp \<Rightarrow> ('x, 'y) ihvp_group \<Rightarrow> error + mat" where
  "ExactIHVP_compute_ihvp self (Points grp) =
     bind_result (assert_batched_dataset grp) (\<lambda>_.
     bind_result (reshape_rows (nb_params (model self)) (batch_jacobian (model self) grp))
       (\<lambda>grads.
     Inr (matmul_transpose_b (inv_hessian self) grads)))"
| "ExactIHVP_compute_ihvp self (Vectors grp) =
     bind_result (assert_batched_dataset grp) (\<lambda>_.
     bind_result
       (sequence_results
          (map (\<lambda>vector.
                  bind_result (reshape_rows (nb_params (model self)) vector) (\<lambda>v.
                  Inr (matmul_transpose_b (inv_hessian self) v)))
             (batches grp)))
       tf_concat_axis0)"

section \<open>FirstOrderInfluenceCalculator\<close>

text \<open>
  The calculator holds the model, the flag \<open>normalize\<close> and its IHVP backend, of which
  it calls \<open>compute_ihvp(dataset)\<close> (with \<open>use_gradient\<close> at its default): the field
  \<open>ihvp_calculator\<close> is that method. The tensors that the backend returns have a dtype,
  which a list of entries does not show: \<open>tensor_format\<close> is its range.
\<close>

record ('x, 'y) first_order_influence_calculator =
  fo_model :: "('x, 'y) influence_model"
  ihvp_calculator :: "('x, 'y) samples dataset \<Rightarrow> error + mat"
  normalize_flag :: bool
  tensor_format :: float_format

text \<open>
  \<open>tf.norm\<close> of a rank-1 tensor, and \<open>tf.norm(v, axis=0, keepdims=True)\<close> of a rank-2 one:
  the square root of the sum of the squares of the entries. The squares and their sum
  are tensors of the dtype of \<open>v\<close>: a square beyond its range overflows to an infinity,
  one below it underflows, and so does the sum.
\<close>

definition tf_norm :: "float_format \<Rightarrow> vec \<Rightarrow> tfloat" where
  "tf_norm fmt v = tf_sqrt (to_format fmt (sum_list (map (\<lambda>x. to_format fmt (x * x)) v)))"

definition tf_norm_axis0 :: "float_format \<Rightarrow> mat \<Rightarrow> vec" where
  "tf_norm_axis0 fmt v = map (\<lambda>j. tf_norm fmt (column v j)) [0..<ncols v]"

text \<open>
  \<open>__normalize_if_needed\<close> on a tensor of rank 2 (the division broadcasts the row of
  norms over the rows of \<open>v\<close>) and on a tensor of rank 1 (where the norm along axis 0
  is the norm of the vector). The quotient of an entry by the norm is left exact.
\<close>

definition normalize_if_needed ::
  "('x, 'y) first_order_influence_calculator \<Rightarrow> mat \<Rightarrow> mat" where
  "normalize_if_needed self v =
     (if normalize_flag self
      then map (\<lambda>row. map2 tf_truediv row (tf_norm_axis0 (tensor_format self) v)) v
      else v)"

definition normalize_if_needed_rank1 ::
  "('x, 'y) first_order_influence_calculator \<Rightarrow> vec \<Rightarrow> vec" where
  "normalize_if_needed_rank1 self v =
     (if normalize_flag self then map (\<lambda>x. tf_truediv x (tf_norm (tensor_format self) v)) v
      else v)"

definition compute_influence ::
  "('x, 'y) first_order_influence_calculator \<Rightarrow> ('x, 'y) samples dataset \<Rightarrow> error + mat" where
  "compute_influence self dataset =
     bind_result (assert_batched_dataset dataset) (\<lambda>_.
     bind_result (ihvp_calculator self dataset) (\<lambda>influence_vectors.
     Inr (tf_transpose (normalize_if_needed self influence_vectors))))"

text \<open>
  \<open>compute_influence_group\<close>: \<open>tf.reduce_sum(ihvp, axis=1)\<close> sums every row of the IHVP,
  and \<open>tf.reshape(_, (1, -1))\<close> makes the resulting vector the one row of a matrix.
\<close>

definition compute_influence_group ::
  "('x, 'y) first_order_influence_calculator \<Rightarrow> ('x, 'y) samples dataset \<Rightarrow> error + mat" where
  "compute_influence_group self grp =
     bind_result (assert_batched_dataset grp) (\<lambda>_.
     bind_result (ihvp_calculator self grp) (\<lambda>ihvp.
     (let reduced_ihvp = map sum_list ihvp;
          reduced_ihvp = normalize_if_needed_rank1 self reduced_ihvp
      in Inr [reduced_ihvp])))"

text \<open>
  The L2 norm of a vector of numbers, as mathematics has it, and the vectors of numbers
  that \<open>tf.norm\<close> measures within the range of a format: no square of a non-zero entry
  underflows, and the sum of the squares does not overflow.
\<close>

definition l2_norm :: "real list \<Rightarrow> real" where
  "l2_norm ys = sqrt (sum_list (map (\<lambda>y. y * y) ys))"

definition in_float_range :: "float_format \<Rightarrow> real list \<Rightarrow> bool" where
  "in_float_range fmt xs =
     (list_all (\<lambda>x. x = 0 \<or> fmt_tiny fmt \<le> x * x) xs \<and>
      sum_list (map (\<lambda>x. x * x) xs) \<le> fmt_huge fmt)"

section \<open>The bounded top-k accumulator and \<open>top_k\<close>\<close>

text \<open>
  Scores are sorted, so tensor entries need an order: numbers as the reals, the
  infinities at the two ends. The specification gives no place to \<open>NaN\<close>; it is put
  below every other entry here. The properties of the accumulator hold for any total
  order of the scores.
\<close>

instantiation tfloat :: linorder
begin

fun less_eq_tfloat :: "tfloat \<Rightarrow> tfloat \<Rightarrow> bool" where
  "less_eq_tfloat NaN _ = True"
| "less_eq_tfloat _ NaN = False"
| "less_eq_tfloat NegInf _ = True"
| "less_eq_tfloat _ NegInf = False"
| "less_eq_tfloat _ PosInf = True"
| "less_eq_tfloat PosInf _ = False"
| "less_eq_tfloat (Num x) (Num y) = (x \<le> y)"

definition less_tfloat :: "tfloat \<Rightarrow> tfloat \<Rightarrow> bool" where
  "less_tfloat a b = (a \<le> b \<and> \<not> b \<le> a)"

instance
proof
  fix p q r :: tfloat
  show "(p < q) = (p \<le> q \<and> \<not> q \<le> p)"
    by (simp add: less_tfloat_def)
  show "p \<le> p"
    by (cases p) simp_all
  show "p \<le> q \<Longrightarrow> q \<le> r \<Longrightarrow> p \<le> r"
    by (cases p; cases q; cases r) simp_all
  show "p \<le> q \<Longrightarrow> q \<le> p \<Longrightarrow> p = q"
    by (cases p; cases q) simp_all
  show "p \<le> q \<or> q \<le> p"
    by (cases p; cases q) auto
qed

end

text \<open>
  Modelled from the spec: \<open>BatchedSortedDict\<close> of \<open>deel.influenciae.common.sorted_dict\<close>
  is not among the sources. Sections 3 and 4.4: per query row an ordered list of at most
  \<open>k\<close> (score, payload) entries, sorted descending by score; \<open>add_all\<close> merges the pairs
  of a batch into each row, a new entry going after the existing entries of an equal
  score, and prunes the row back to the \<open>k\<close> highest; \<open>get\<close> returns per row the scores
  and the payloads.
\<close>

record ('s, 'p) batched_sorted_dict =
  k_largest :: nat
  dict_rows :: "('s \<times> 'p) list list"

definition BatchedSortedDict :: "nat \<Rightarrow> nat \<Rightarrow> ('s, 'p) batched_sorted_dict" where
  "BatchedSortedDict batch_size k = \<lparr>k_largest = k, dict_rows = replicate batch_size []\<rparr>"

fun insert_entry :: "('s::linorder) \<times> 'p \<Rightarrow> ('s \<times> 'p) list \<Rightarrow> ('s \<times> 'p) list" where
  "insert_entry e [] = [e]"
| "insert_entry e (x # xs) = (if fst e \<le> fst x then x # insert_entry e xs else e # x # xs)"

definition add_row ::
  "nat \<Rightarrow> (('s::linorder) \<times> 'p) list \<Rightarrow> ('s \<times> 'p) list \<Rightarrow> ('s \<times> 'p) list" where
  "add_row k row entries = take k (foldl (\<lambda>acc e. insert_entry e acc) row entries)"

definition add_all ::
  "(('s::linorder), 'p) batched_sorted_dict \<Rightarrow> 's list list \<Rightarrow> 'p list list \<Rightarrow>
   ('s, 'p) batched_sorted_dict" where
  "add_all dic score_matrix payload_matrix =
     dic\<lparr>dict_rows :=
       map (\<lambda>(row, scores, payloads). add_row (k_largest dic) row (zip scores payloads))
         (zip (dict_rows dic) (zip score_matrix payload_matrix))\<rparr>"

definition get_rows :: "('s, 'p) batched_sorted_dict \<Rightarrow> 's list list \<times> 'p list list" where
  "get_rows dic = (map (map fst) (dict_rows dic), map (map snd) (dict_rows dic))"

text \<open>
  \<open>tf.data.Dataset.from_tensor_slices(batch).batch(int(tf.shape(batch[0])[0]))\<close>: the
  dataset of the one batch; \<open>batch\<close> refuses the size zero.
\<close>

definition dataset_of_batch ::
  "(tfloat \<Rightarrow> tfloat) \<Rightarrow> ('x, 'y) samples \<Rightarrow> error + ('x, 'y) samples dataset" where
  "dataset_of_batch cast batch =
     (if fst batch = [] then Inl InvalidArgumentError
      else Inr \<lparr>is_batched = True, ds_batch_size = length (fst batch), element_cast = cast,
                batches = [batch]\<rparr>)"

text \<open>
  The loop of \<open>top_k\<close> over the batches of \<open>dataset_train\<close> (a batch holds as many
  labels as inputs). The gradients of the query points are the rows of
  \<open>grads_to_evaluate\<close>, which the reshape to \<open>(batch_size, -1)\<close> leaves as they are. The
  payloads given to the
  accumulator are the inputs \<open>batch[0]\<close> of the batch, once per query row
  (\<open>tf.repeat(tf.expand_dims(batch[0], axis=0), batch_size, axis=0)\<close>).
\<close>

fun top_k_loop ::
  "('x, 'y) first_order_influence_calculator \<Rightarrow> (tfloat \<Rightarrow> tfloat) \<Rightarrow> mat \<Rightarrow>
   (tfloat, 'x) batched_sorted_dict \<Rightarrow> ('x, 'y) samples list \<Rightarrow>
   error + (tfloat, 'x) batched_sorted_dict" where
  "top_k_loop self cast grads_to_evaluate batched_sorted_dic [] = Inr batched_sorted_dic"
| "top_k_loop self cast grads_to_evaluate batched_sorted_dic (batch # rest) =
     bind_result (dataset_of_batch cast batch) (\<lambda>ds.
     bind_result (ihvp_calculator self ds) (\<lambda>ihvp.
     (let ihvp = normalize_if_needed self ihvp;
          influence_values = matmul grads_to_evaluate ihvp;
          batch_size = length grads_to_evaluate
      in top_k_loop self cast grads_to_evaluate
           (add_all batched_sorted_dic influence_values (replicate batch_size (fst batch)))
           rest)))"

definition top_k ::
  "('x, 'y) first_order_influence_calculator \<Rightarrow> ('x, 'y) samples \<Rightarrow>
   ('x, 'y) samples dataset \<Rightarrow> nat \<Rightarrow> error + (mat \<times> 'x list list)" where
  "top_k self sample_to_evaluate dataset_train k =
     (let grads_to_evaluate =
            batch_jacobian_tensor (fo_model self) (fst sample_to_evaluate)
              (snd sample_to_evaluate);
          batch_size = length grads_to_evaluate;
          batched_sorted_dic = BatchedSortedDict batch_size k
      in bind_result
           (top_k_loop self (element_cast dataset_train) grads_to_evaluate batched_sorted_dic
              (batches dataset_train))
           (\<lambda>dic. Inr (get_rows dic)))"

text \<open>
  The score matrix of one batch of the loop of \<open>top_k\<close> (\<open>influence_values\<close>), and the
  (score, payload) pairs that query row \<open>i\<close> is given over a list of batches.
\<close>

definition batch_scores ::
  "('x, 'y) first_order_influence_calculator \<Rightarrow> (tfloat \<Rightarrow> tfloat) \<Rightarrow> mat \<Rightarrow>
   ('x, 'y) samples \<Rightarrow> error + mat" where
  "batch_scores self cast grads_to_evaluate batch =
     bind_result (dataset_of_batch cast batch) (\<lambda>ds.
     bind_result (ihvp_calculator self ds) (\<lambda>ihvp.
     Inr (matmul grads_to_evaluate (normalize_if_needed self ihvp))))"

definition row_entries ::
  "('x, 'y) first_order_influence_calculator \<Rightarrow> (tfloat \<Rightarrow> tfloat) \<Rightarrow> mat \<Rightarrow>
   ('x, 'y) samples list \<Rightarrow> nat \<Rightarrow> (tfloat \<times> 'x) list" where
  "row_entries self cast grads_to_evaluate bs i =
     concat (map (\<lambda>b. zip (projr (batch_scores self cast grads_to_evaluate b) ! i) (fst b)) bs)"

text \<open>The calculator over an ExactIHVP backend, its tensors of dtype \<open>tf.float32\<close>.\<close>

definition exact_calculator ::
  "('x, 'y) exact_ihvp \<Rightarrow> bool \<Rightarrow> ('x, 'y) first_order_influence_calculator" where
  "exact_calculator ihvp flag =
     \<lparr>fo_model = model ihvp,
      ihvp_calculator = (\<lambda>ds. ExactIHVP_compute_ihvp ihvp (Points ds)),
      normalize_flag = flag,
      tensor_format = float32_format\<rparr>"

section \<open>ConjugateGradientDescentIHVP: the Hessian-vector product\<close>

text \<open>
  The fields of the object that \<open>__call__\<close> reads, as \<open>__init__\<close> leaves them: the
  feature-map dataset \<open>train_set\<close> (its batches of feature maps and labels, replayable),
  \<open>cardinality\<close> (a \<open>tf.int64\<close>; the loop counter stays below it, so it cannot
  overflow), \<open>n_hessian\<close>, and of the tail model the number of parameters and the sizes
  of the weight variables. The automatic differentiation of \<open>__sub_call\<close> is the
  parameter \<open>cg_jvp\<close>: \<open>acc.jvp(backward)\<close> for the reshaped vector \<open>x\<close> and a batch of
  feature maps and labels, one tensor per weight variable, each already flattened as
  the source's \<open>tf.reshape(_, shape=(-1,))\<close> leaves it.
\<close>

record ('f, 'l) cgd_ihvp =
  cg_nb_params :: nat
  cg_weight_sizes :: "nat list"
  cg_n_hessian :: nat
  cg_cardinality :: int
  cg_train_set :: "('f, 'l) samples list"
  cg_jvp :: "vec list \<Rightarrow> 'f list \<Rightarrow> 'l list \<Rightarrow> vec list"

text \<open>
  \<open>__reshape_vector\<close>: the slices \<open>grads[index:(index + size)]\<close> of the vector, one per
  weight variable (\<open>sz\<close> is the source's \<open>size\<close>). A slice past the end is short, and its \<open>tf.reshape\<close> to the shape of
  the weight fails.
\<close>

fun reshape_vector :: "vec \<Rightarrow> nat list \<Rightarrow> error + vec list" where
  "reshape_vector grads [] = Inr []"
| "reshape_vector grads (sz # weights) =
     (let g = take sz grads in
      if length g \<noteq> sz then Inl InvalidArgumentError
      else bind_result (reshape_vector (drop sz grads) weights) (\<lambda>gs. Inr (g # gs)))"

definition sub_call :: "('f, 'l) cgd_ihvp \<Rightarrow> vec list \<Rightarrow> 'f list \<Rightarrow> 'l list \<Rightarrow> vec" where
  "sub_call self x feature_maps_hessian_current y_hessian_current =
     (let hessian_vector_product = cg_jvp self x feature_maps_hessian_current y_hessian_current;
          hvp = concat hessian_vector_product;
          weight = tf_truediv (Num (real (length feature_maps_hessian_current)))
                     (Num (real (cg_n_hessian self)))
      in map (\<lambda>h. h * weight) hvp)"

text \<open>\<open>tf.reduce_sum(t, axis=0)\<close> of a rank-2 tensor of shape \<open>(b, p)\<close>.\<close>

definition reduce_sum_rows :: "nat \<Rightarrow> vec list \<Rightarrow> vec" where
  "reduce_sum_rows p vs = foldl vadd (replicate p 0) vs"

text \<open>
  The iterators over datasets are objects of the heap: the list of what each iterator
  has left to yield. \<open>iter\<close> appends a new one, \<open>next\<close> advances the one it is given.
\<close>

type_synonym ('f, 'l) iterators = "('f, 'l) samples list list"

text \<open>
  The \<open>tf.while_loop\<close> of \<open>__call__\<close> over the iterator at address \<open>it\<close>: the result, and
  the heap when the loop returns or \<open>next\<close> raises.
\<close>

function call_loop ::
  "('f, 'l) cgd_ihvp \<Rightarrow> vec list \<Rightarrow> nat \<Rightarrow> int \<times> vec \<times> ('f, 'l) iterators \<Rightarrow>
   (error + vec) \<times> ('f, 'l) iterators" where
  "call_loop self x it (i, hessian_vector_product, heap) =
     (if i < cg_cardinality self then
        (case heap ! it of
           [] \<Rightarrow> (Inl OutOfRangeError, heap)
         | block # rest \<Rightarrow>
             (let features_block = fst block;
                  labels_block = snd block;
                  hessian_vector_product_inner =
                    reduce_sum_rows (cg_nb_params self)
                      (map (\<lambda>elt. sub_call self x [fst elt] [snd elt])
                         (zip features_block labels_block))
              in call_loop self x it
                   (i + 1, vadd hessian_vector_product hessian_vector_product_inner,
                    heap[it := rest])))
      else (Inr hessian_vector_product, heap))"
  by pat_completeness auto
termination
  by (relation "measure (\<lambda>(self, x, it, i, h, heap). nat (cg_cardinality self - i))") auto

declare call_loop.simps [simp del]

text \<open>
  \<open>__call__\<close>: the Hessian-vector product as a tensor of shape \<open>(nb_params, 1)\<close>, and
  the heap after the call.
\<close>

definition call ::
  "('f, 'l) cgd_ihvp \<Rightarrow> ('f, 'l) iterators \<Rightarrow> vec \<Rightarrow> (error + mat) \<times> ('f, 'l) iterators" where
  "call self heap x_initial =
     (case reshape_vector x_initial (cg_weight_sizes self) of
        Inl e \<Rightarrow> (Inl e, heap)
      | Inr x \<Rightarrow>
          (let hvp_init = replicate (cg_nb_params self) 0;
               dataset_iterator = length heap;
               heap = heap @ [cg_train_set self];
               (r, heap) = call_loop self x dataset_iterator (0, hvp_init, heap)
           in (bind_result r (\<lambda>hessian_vector_product.
                 if length hessian_vector_product = cg_nb_params self
                 then Inr (map (\<lambda>h. [h]) hessian_vector_product)
                 else Inl InvalidArgumentError),
               heap)))"

text \<open>The \<open>hessian_vector_product_inner\<close> of one batch of the loop.\<close>

definition batch_hvp :: "('f, 'l) cgd_ihvp \<Rightarrow> vec list \<Rightarrow> ('f, 'l) samples \<Rightarrow> vec" where
  "batch_hvp self x block =
     reduce_sum_rows (cg_nb_params self)
       (map (\<lambda>elt. sub_call self x [fst elt] [snd elt]) (zip (fst block) (snd block)))"

text \<open>
  What \<open>__call__\<close> accumulates, entry by entry: over all batches and all samples of a
  batch, the Hessian-vector product of the sample times \<open>1 / n_hessian\<close>.
\<close>

definition sample_weighted_hvp :: "('f, 'l) cgd_ihvp \<Rightarrow> vec list \<Rightarrow> mat" where
  "sample_weighted_hvp self x =
     map (\<lambda>j. [sum_list (map (\<lambda>block. sum_list (map (\<lambda>elt.
            concat (cg_jvp self x [fst elt] [snd elt]) ! j
              * tf_truediv (Num 1) (Num (real (cg_n_hessian self))))
          (zip (fst block) (snd block)))) (cg_train_set self))])
       [0..<cg_nb_params self]"

text \<open>
  The same in the words of the specification (section 4.2): the per-sample products
  are summed across the batch and scaled by batch size over total sample count.
\<close>

definition batch_weighted_hvp :: "('f, 'l) cgd_ihvp \<Rightarrow> vec list \<Rightarrow> mat" where
  "batch_weighted_hvp self x =
     map (\<lambda>j. [sum_list (map (\<lambda>block.
            sum_list (map (\<lambda>elt. concat (cg_jvp self x [fst elt] [snd elt]) ! j)
              (zip (fst block) (snd block)))
            * tf_truediv (Num (real (length (fst block)))) (Num (real (cg_n_hessian self))))
          (cg_train_set self))])
       [0..<cg_nb_params self]"

text \<open>
  The samples of the feature-map dataset in the order one pass streams them, and the
  mean over them of the per-sample Hessian-vector products: their sum divided by their
  number.
\<close>

definition streamed_samples :: "('f, 'l) cgd_ihvp \<Rightarrow> ('f \<times> 'l) list" where
  "streamed_samples self =
     concat (map (\<lambda>block. zip (fst block) (snd block)) (cg_train_set self))"

definition mean_sample_hvp :: "('f, 'l) cgd_ihvp \<Rightarrow> vec list \<Rightarrow> mat" where
  "mean_sample_hvp self x =
     map (\<lambda>j. [tf_truediv
            (sum_list (map (\<lambda>elt. concat (cg_jvp self x [fst elt] [snd elt]) ! j)
               (streamed_samples self)))
            (Num (real (length (streamed_samples self))))])
       [0..<cg_nb_params self]"

section \<open>A one-parameter model for concrete runs\<close>

text \<open>
  A model with one weight \<open>w\<close>, inputs and labels that are numbers, and the loss
  \<open>x * w\<^sup>2 / 4 - y * w\<close> at \<open>w = 1\<close>: the gradient of a sample is \<open>x / 2 - y\<close>, its
  Hessian \<open>x / 2\<close>. The pseudo-inverse of a 1 x 1 matrix inverts its entry, or keeps
  a zero.
\<close>

definition toy_grad :: "real \<Rightarrow> real \<Rightarrow> vec" where
  "toy_grad x y = [Num (x / 2 - y)]"

definition toy_hess :: "real \<Rightarrow> mat" where
  "toy_hess x = [[Num (x / 2)]]"

definition toy_model :: "(real, real) influence_model" where
  "toy_model =
     \<lparr>nb_params = 1,
      batch_jacobian_tensor = (\<lambda>xs ys. map2 toy_grad xs ys),
      batch_jacobian = (\<lambda>ds. concat (map (\<lambda>b. map2 toy_grad (fst b) (snd b)) (batches ds))),
      batch_gradient = (\<lambda>ds. concat (map (\<lambda>b. map2 toy_grad (fst b) (snd b)) (batches ds))),
      tape_jacobian = (\<lambda>xs ys. [map toy_hess xs]),
      tape_jacobian_dataset = (\<lambda>ds. [map toy_hess (concat (map fst (batches ds)))])\<rparr>"

fun pinv_1x1 :: "mat \<Rightarrow> mat" where
  "pinv_1x1 [[Num a]] = [[Num (if a = 0 then 0 else 1 / a)]]"
| "pinv_1x1 m = m"

definition toy_dataset :: "(real, real) samples dataset" where
  "toy_dataset =
     \<lparr>is_batched = True, ds_batch_size = 2, element_cast = (\<lambda>x. x), batches = [([2, 4], [0, - 1])]\<rparr>"

text \<open>\<open>tf.cast\<close> to an integer dtype: a number is truncated toward zero.\<close>

fun tf_cast_int :: "tfloat \<Rightarrow> tfloat" where
  "tf_cast_int (Num x) = Num (of_int (if 0 \<le> x then \<lfloor>x\<rfloor> else \<lceil>x\<rceil>))"
| "tf_cast_int v = v"

definition toy_int_dataset :: "(real, real) samples dataset" where
  "toy_int_dataset =
     \<lparr>is_batched = True, ds_batch_size = 1, element_cast = tf_cast_int,
      batches = [([1], [0])]\<rparr>"

text \<open>
  The ExactIHVP object of the dataset \<open>toy_dataset\<close> (its two Hessians are \<open>1\<close> and
  \<open>2\<close>, their mean \<open>3 / 2\<close>), a dataset of one sample, a dataset of one sample whose
  gradient is zero, and an ExactIHVP object of two parameters with the identity as its
  inverse Hessian.
\<close>

definition toy_exact_ihvp :: "(real, real) exact_ihvp" where
  "toy_exact_ihvp =
     \<lparr>model = toy_model, train_set = Some toy_dataset, parallel_iter = None,
      inv_hessian = [[Num (2 / 3)]], hessian = None\<rparr>"

definition toy_single_dataset :: "(real, real) samples dataset" where
  "toy_single_dataset =
     \<lparr>is_batched = True, ds_batch_size = 1, element_cast = (\<lambda>x. x),
      batches = [([4], [- 1])]\<rparr>"

definition toy_zero_dataset :: "(real, real) samples dataset" where
  "toy_zero_dataset =
     \<lparr>is_batched = True, ds_batch_size = 1, element_cast = (\<lambda>x. x),
      batches = [([2], [1])]\<rparr>"

text \<open>
  A dataset of one sample whose gradient is \<open>3 * 10\<^sup>20\<close>: its IHVP is \<open>2 * 10\<^sup>20\<close>, a
  number of \<open>tf.float32\<close> whose square is not.
\<close>

definition toy_huge_dataset :: "(real, real) samples dataset" where
  "toy_huge_dataset =
     \<lparr>is_batched = True, ds_batch_size = 1, element_cast = (\<lambda>x. x),
      batches = [([6 * 10 ^ 20], [0])]\<rparr>"

definition identity_exact_ihvp :: "(real, real) exact_ihvp" where
  "identity_exact_ihvp =
     \<lparr>model = toy_model\<lparr>nb_params := 2\<rparr>, train_set = None, parallel_iter = None,
      inv_hessian = [[Num 1, Num 0], [Num 0, Num 1]],
      hessian = Some [[Num 1, Num 0], [Num 0, Num 1]]\<rparr>"

definition two_vector_batches :: "mat dataset" where
  "two_vector_batches =
     \<lparr>is_batched = True, ds_batch_size = 1, element_cast = (\<lambda>x. x),
      batches = [[[Num 1, Num 2]], [[Num 3, Num 4]]]\<rparr>"

text \<open>
  Two training points of one score for the query \<open>(2, 0)\<close>, each in a batch of its own, in
  the two orders.
\<close>

definition tie_dataset :: "(real, real) samples dataset" where
  "tie_dataset =
     \<lparr>is_batched = True, ds_batch_size = 1, element_cast = (\<lambda>x. x),
      batches = [([2], [0]), ([4], [1])]\<rparr>"

definition tie_dataset_rev :: "(real, real) samples dataset" where
  "tie_dataset_rev =
     \<lparr>is_batched = True, ds_batch_size = 1, element_cast = (\<lambda>x. x),
      batches = [([4], [1]), ([2], [0])]\<rparr>"

text \<open>Two training points of different scores for the query \<open>(2, 0)\<close>, in the two orders.\<close>

definition ranked_dataset :: "(real, real) samples dataset" where
  "ranked_dataset =
     \<lparr>is_batched = True, ds_batch_size = 1, element_cast = (\<lambda>x. x),
      batches = [([2], [0]), ([4], [0])]\<rparr>"

definition ranked_dataset_rev :: "(real, real) samples dataset" where
  "ranked_dataset_rev =
     \<lparr>is_batched = True, ds_batch_size = 1, element_cast = (\<lambda>x. x),
      batches = [([4], [0]), ([2], [0])]\<rparr>"

text \<open>
  The conjugate-gradient object of the one-parameter model over \<open>toy_dataset\<close>: the
  Hessian-vector product of a sample \<open>f\<close> with \<open>x\<close> is \<open>f / 2 * x\<close>.
\<close>

definition toy_cgd :: "(real, real) cgd_ihvp" where
  "toy_cgd =
     \<lparr>cg_nb_params = 1, cg_weight_sizes = [1], cg_n_hessian = 2, cg_cardinality = 1,
      cg_train_set = [([2, 4], [0, - 1])],
      cg_jvp = (\<lambda>x fs ls. [map (\<lambda>f. Num (f / 2) * hd (hd x)) fs])\<rparr>"

chapter \<open>Properties\<close>

section \<open>ExactIHVP: the mean Hessian\<close>

lemma hessian_loop_foldl:
  "hessian_loop m cast (hess, nb_elt) bs =
     (foldl madd hess
        (map (\<lambda>b. map (map cast) (reduce_sum_axis0 (nb_params m) (batch_hessians m b))) bs),
      nb_elt + word_of_nat (sum_list (map (\<lambda>b. length (fst b)) bs)))"
  by (induction bs arbitrary: hess nb_elt) (simp_all add: Let_def batch_hessians_def)

lemma is_mat_madd: "is_mat r c a \<Longrightarrow> is_mat r c b \<Longrightarrow> is_mat r c (madd a b)"
  by (auto simp: is_mat_def madd_def vadd_def list_all_length)

lemma madd_nth:
  "is_mat r c a \<Longrightarrow> is_mat r c b \<Longrightarrow> i < r \<Longrightarrow> j < c \<Longrightarrow>
   madd a b ! i ! j = a ! i ! j + b ! i ! j"
  by (auto simp: is_mat_def madd_def vadd_def list_all_length)

lemma foldl_madd:
  "is_mat r c a \<Longrightarrow> list_all (is_mat r c) ms \<Longrightarrow>
   is_mat r c (foldl madd a ms) \<and>
   (\<forall>i<r. \<forall>j<c. foldl madd a ms ! i ! j = a ! i ! j + sum_list (map (\<lambda>m. m ! i ! j) ms))"
proof (induction ms arbitrary: a)
  case Nil
  then show ?case by simp
next
  case (Cons m ms)
  then show ?case
    by (simp add: is_mat_madd madd_nth add.assoc)
qed

lemma is_mat_zeros: "is_mat r c (zeros r c)"
  by (simp add: is_mat_def zeros_def list_all_length)

lemma zeros_nth: "i < r \<Longrightarrow> j < c \<Longrightarrow> zeros r c ! i ! j = 0"
  by (simp add: zeros_def)

lemma mat_ext: "is_mat r c a \<Longrightarrow> a = map (\<lambda>i. map (\<lambda>j. a ! i ! j) [0..<c]) [0..<r]"
  by (auto simp: is_mat_def list_all_length intro!: nth_equalityI)

text \<open>The \<open>tf.int32\<close> counter holds the sample count as long as that is below \<open>2\<^sup>3\<^sup>1\<close>.\<close>

lemma signed_count:
  "n < 2 ^ 31 \<Longrightarrow> (signed (word_of_nat n :: 32 word) :: real) = real n"
  by (simp add: signed_of_nat signed_take_bit_int_eq_self)

lemma reduce_sum_axis0_entries:
  "list_all (is_mat p p) hs \<Longrightarrow>
   is_mat p p (reduce_sum_axis0 p hs) \<and>
   (\<forall>i<p. \<forall>j<p. reduce_sum_axis0 p hs ! i ! j = sum_list (map (\<lambda>h. h ! i ! j) hs))"
  using foldl_madd [OF is_mat_zeros, of p p hs]
  by (simp add: reduce_sum_axis0_def zeros_nth)

lemma is_mat_map_map: "is_mat r c a \<Longrightarrow> is_mat r c (map (map f) a)"
  by (simp add: is_mat_def list_all_length)

lemma map_map_nth:
  "is_mat r c a \<Longrightarrow> i < r \<Longrightarrow> j < c \<Longrightarrow> map (map f) a ! i ! j = f (a ! i ! j)"
  by (simp add: is_mat_def list_all_length)

lemma mean_hessian_streamed:
  assumes shapes:
      "list_all (\<lambda>b. list_all (is_mat (nb_params m) (nb_params m)) (batch_hessians m b))
         (batches ds)"
    and count: "sum_list (map (\<lambda>b. length (fst b)) (batches ds)) < 2 ^ 31"
  shows "mean_hessian m None ds = streamed_mean_hessian m ds"
proof -
  let ?p = "nb_params m"
  let ?contrib =
    "\<lambda>b. map (map (element_cast ds)) (reduce_sum_axis0 ?p (batch_hessians m b))"
  let ?n = "sum_list (map (\<lambda>b. length (fst b)) (batches ds))"
  let ?hess = "foldl madd (zeros ?p ?p) (map ?contrib (batches ds))"
  let ?entry = "\<lambda>i j. sum_list (map (\<lambda>b. element_cast ds
      (sum_list (map (\<lambda>h. h ! i ! j) (batch_hessians m b)))) (batches ds))"
  have contrib_mat: "list_all (is_mat ?p ?p) (map ?contrib (batches ds))"
    using shapes by (simp add: list_all_iff is_mat_map_map reduce_sum_axis0_entries)
  have contrib_entry:
    "?contrib b ! i ! j = element_cast ds (sum_list (map (\<lambda>h. h ! i ! j) (batch_hessians m b)))"
    if "b \<in> set (batches ds)" "i < ?p" "j < ?p" for b i j
  proof -
    have "list_all (is_mat ?p ?p) (batch_hessians m b)"
      using shapes that(1) by (simp add: list_all_iff)
    then show ?thesis
      using that(2,3)
      by (simp add: map_map_nth [where r = ?p and c = ?p] reduce_sum_axis0_entries)
  qed
  have hess: "is_mat ?p ?p ?hess"
    and entries:
      "\<forall>i<?p. \<forall>j<?p. ?hess ! i ! j = sum_list (map (\<lambda>a. a ! i ! j) (map ?contrib (batches ds)))"
    using foldl_madd [OF is_mat_zeros contrib_mat] by (simp_all add: zeros_nth)
  have loop:
    "hessian_loop m (element_cast ds) (zeros ?p ?p, 0) (batches ds) = (?hess, word_of_nat ?n)"
    by (simp add: hessian_loop_foldl)
  have "mean_hessian m None ds = mdiv ?hess (Num (real ?n))"
    using count by (simp add: mean_hessian_def loop signed_count)
  also have "\<dots> = map (\<lambda>i. map (\<lambda>j. mdiv ?hess (Num (real ?n)) ! i ! j) [0..<?p]) [0..<?p]"
    by (rule mat_ext) (simp add: mdiv_def is_mat_map_map hess)
  also have "\<dots> = streamed_mean_hessian m ds"
    unfolding streamed_mean_hessian_def Let_def
  proof (intro map_cong refl)
    fix i j assume "i \<in> set [0..<?p]" "j \<in> set [0..<?p]"
    then have ij: "i < ?p" "j < ?p" by simp_all
    have "mdiv ?hess (Num (real ?n)) ! i ! j = tf_truediv (?hess ! i ! j) (Num (real ?n))"
      using ij hess by (simp add: mdiv_def map_map_nth [where r = ?p and c = ?p])
    also have "?hess ! i ! j = ?entry i j"
      using entries ij contrib_entry by (simp add: comp_def cong: map_cong)
    finally show "mdiv ?hess (Num (real ?n)) ! i ! j = tf_truediv (?entry i j) (Num (real ?n))" .
  qed
  finally show ?thesis .
qed

lemma toy_dataset_batched: "is_batched toy_dataset"
  by (simp add: toy_dataset_def)

lemma upt_0_2: "[0..<2] = [0, 1]"
  by (simp add: upt_rec)

lemma toy_batch_hessians:
  "batch_hessians toy_model ([2, 4], [0, - 1]) = [[[Num 1]], [[Num 2]]]"
  by (simp add: batch_hessians_def toy_model_def concat_last_def toy_hess_def toy_grad_def
      upt_0_2)

lemma toy_streamed_mean_hessian: "streamed_mean_hessian toy_model toy_dataset = [[Num (3 / 2)]]"
  by (simp add: streamed_mean_hessian_def toy_dataset_def toy_batch_hessians)
     (simp add: toy_model_def)

lemma toy_inv_hessian: "compute_inv_hessian pinv_1x1 toy_model None toy_dataset = [[Num (2 / 3)]]"
proof -
  have "mean_hessian toy_model None toy_dataset = streamed_mean_hessian toy_model toy_dataset"
    by (rule mean_hessian_streamed)
       (simp_all add: toy_dataset_def toy_batch_hessians is_mat_def, simp add: toy_model_def)
  then show ?thesis
    by (simp add: compute_inv_hessian_def toy_streamed_mean_hessian)
qed

text \<open>
  C1, as the code has it. With \<open>parallel_iter\<close> left at \<open>None\<close>, a batched dataset of
  fewer than \<open>2\<^sup>3\<^sup>1\<close> samples and per-sample Hessians of shape \<open>P \<times> P\<close>, the
  constructor stores the pseudo-inverse of the streamed mean Hessian: per batch the
  per-sample Hessians are summed and cast to the dataset's dtype, the casts are added
  up over the batches, and the sum is divided by the number of samples. With
  \<open>parallel_iter\<close> set, it stores the pseudo-inverse of the plain mean of the
  per-sample Hessians of the whole dataset, with no cast. The queries read the stored
  inverse: \<open>pinv\<close> is a parameter of the constructor only.
\<close>

theorem ExactIHVP_streamed_hessian:
  assumes "is_batched ds"
    and "list_all (\<lambda>b. list_all (is_mat (nb_params m) (nb_params m)) (batch_hessians m b))
           (batches ds)"
    and "sum_list (map (\<lambda>b. length (fst b)) (batches ds)) < 2 ^ 31"
  shows "ExactIHVP_init pinv m (Some ds) train_hessian None =
     Inr \<lparr>model = m, train_set = Some ds, parallel_iter = None,
          inv_hessian = pinv (streamed_mean_hessian m ds), hessian = None\<rparr> \<and>
   ExactIHVP_init pinv m (Some ds) train_hessian (Some k) =
     Inr \<lparr>model = m, train_set = Some ds, parallel_iter = Some k,
          inv_hessian = pinv (reduce_mean_axis0 (nb_params m)
            (concat_last
               (length (if ds_batch_size ds = 1 then batch_gradient m ds
                        else batch_jacobian m ds))
               (nb_params m) (tape_jacobian_dataset m ds))),
          hessian = None\<rparr>"
  using assms
  by (simp add: ExactIHVP_init_def assert_batched_dataset_def compute_inv_hessian_def
      mean_hessian_streamed)
     (simp add: mean_hessian_def)

theorem ExactIHVP_streamed_hessian_witness:
  "ExactIHVP_init pinv_1x1 toy_model (Some toy_dataset) None None =
     Inr \<lparr>model = toy_model, train_set = Some toy_dataset, parallel_iter = None,
          inv_hessian = [[Num (2 / 3)]], hessian = None\<rparr>"
  using ExactIHVP_streamed_hessian [of toy_dataset toy_model pinv_1x1 None]
    toy_streamed_mean_hessian
  by (simp add: toy_dataset_def toy_batch_hessians is_mat_def) (simp add: toy_model_def)

text \<open>
  C1 as the specification states it fails when \<open>parallel_iter\<close> is set. A dataset of
  integer inputs holds the one sample \<open>x = 1\<close>, with Hessian \<open>1 / 2\<close>: the streamed
  mean casts it to \<open>0\<close>, the constructor with \<open>parallel_iter = 1\<close> keeps \<open>1 / 2\<close>.
\<close>

theorem ExactIHVP_parallel_iter_no_cast:
  "inv_hessian (projr (ExactIHVP_init pinv_1x1 toy_model (Some toy_int_dataset) None (Some 1)))
     = [[Num 2]] \<and>
   pinv_1x1 (streamed_mean_hessian toy_model toy_int_dataset) = [[Num 0]]"
proof -
  have bh: "batch_hessians toy_model ([1], [0]) = [[[Num (1 / 2)]]]"
    by (simp add: batch_hessians_def toy_model_def concat_last_def toy_hess_def toy_grad_def)
  have "streamed_mean_hessian toy_model toy_int_dataset = [[Num 0]]"
    by (simp add: streamed_mean_hessian_def toy_int_dataset_def bh) (simp add: toy_model_def)
  moreover have "mean_hessian toy_model (Some 1) toy_int_dataset = [[Num (1 / 2)]]"
    by (simp add: mean_hessian_def toy_int_dataset_def toy_model_def concat_last_def
        reduce_mean_axis0_def reduce_sum_axis0_def zeros_def madd_def vadd_def mdiv_def
        toy_hess_def toy_grad_def zero_tfloat_def)
  ultimately show ?thesis
    by (simp add: ExactIHVP_init_def assert_batched_dataset_def compute_inv_hessian_def
        toy_int_dataset_def)
qed

section \<open>ExactIHVP: the constructor\<close>

text \<open>
  C4, as the code has it. The constructor fails when neither a dataset nor a Hessian is
  given. A batched dataset makes it succeed whether or not a Hessian comes with it: the
  dataset is used and the Hessian argument is ignored. A Hessian alone makes it succeed
  with the pseudo-inverse of that Hessian.
\<close>

theorem ExactIHVP_init_cases:
  "isl (ExactIHVP_init pinv m None None par) \<and>
   ExactIHVP_init pinv m None (Some h) par =
     Inr \<lparr>model = m, train_set = None, parallel_iter = None,
          inv_hessian = pinv h, hessian = Some h\<rparr> \<and>
   ExactIHVP_init pinv m (Some ds) train_hessian par =
     (if is_batched ds
      then Inr \<lparr>model = m, train_set = Some ds, parallel_iter = par,
                inv_hessian = compute_inv_hessian pinv m par ds, hessian = None\<rparr>
      else Inl ShapeError)"
  by (simp add: ExactIHVP_init_def assert_batched_dataset_def)

theorem ExactIHVP_init_cases_witness:
  "isl (ExactIHVP_init pinv_1x1 toy_model None None None) \<and>
   ExactIHVP_init pinv_1x1 toy_model None (Some [[Num 2]]) None =
     Inr \<lparr>model = toy_model, train_set = None, parallel_iter = None,
          inv_hessian = [[Num (1 / 2)]], hessian = Some [[Num 2]]\<rparr> \<and>
   ExactIHVP_init pinv_1x1 toy_model (Some toy_dataset) None None =
     Inr \<lparr>model = toy_model, train_set = Some toy_dataset, parallel_iter = None,
          inv_hessian = [[Num (2 / 3)]], hessian = None\<rparr>"
  using ExactIHVP_init_cases [of pinv_1x1 toy_model None "[[Num 2]]" toy_dataset None]
  by (simp add: toy_inv_hessian toy_dataset_batched)

text \<open>
  C4 as the specification states it fails where both a dataset and a Hessian are given:
  the constructor returns an object. Its inverse Hessian \<open>2 / 3\<close> is the one of the
  dataset; that of the Hessian \<open>5\<close> given with it would be \<open>1 / 5\<close>.
\<close>

theorem ExactIHVP_init_both_supplied:
  "ExactIHVP_init pinv_1x1 toy_model (Some toy_dataset) (Some [[Num 5]]) None =
     Inr \<lparr>model = toy_model, train_set = Some toy_dataset, parallel_iter = None,
          inv_hessian = [[Num (2 / 3)]], hessian = None\<rparr>"
  by (simp add: ExactIHVP_init_def assert_batched_dataset_def toy_inv_hessian
      toy_dataset_batched)

section \<open>ExactIHVP queries and the influence calculator\<close>

lemma map_index: "map (\<lambda>j. f (xs ! j)) [0..<length xs] = map f xs"
  by (rule nth_equalityI) simp_all

lemma take_drop_concat:
  "list_all (\<lambda>row. length row = p) g \<Longrightarrow> i < length g \<Longrightarrow> take p (drop (i * p) (concat g)) = g ! i"
proof (induction g arbitrary: i)
  case Nil
  then show ?case by simp
next
  case (Cons row g)
  then show ?case by (cases i) (simp_all add: add.commute)
qed

lemma length_concat_mat: "list_all (\<lambda>row. length row = p) g \<Longrightarrow> length (concat g) = length g * p"
  by (induction g) simp_all

lemma reshape_rows_id:
  assumes "is_mat n p g" "0 < p"
  shows "reshape_rows p g = Inr g"
proof -
  have rows: "list_all (\<lambda>row. length row = p) g" and n: "length g = n"
    using assms(1) by (simp_all add: is_mat_def)
  have "map (\<lambda>i. take p (drop (i * p) (concat g))) [0..<length g] = g"
    by (rule nth_equalityI) (simp_all add: take_drop_concat [OF rows])
  then show ?thesis
    using assms(2) by (simp add: reshape_rows_def Let_def length_concat_mat [OF rows])
qed


lemma toy_ihvp: "ExactIHVP_compute_ihvp toy_exact_ihvp (Points toy_dataset) = Inr [[Num (2 / 3), Num 2]]"
  by (simp add: toy_exact_ihvp_def toy_dataset_def bind_result_def assert_batched_dataset_def
      toy_model_def toy_grad_def reshape_rows_def matmul_transpose_b_def dot_def upt_0_2)

text \<open>
  With \<open>use_gradient=True\<close> and per-sample gradients of \<open>P\<close> entries, \<open>compute_ihvp\<close>
  returns one column per input point, in input order: entry \<open>(i, s)\<close> is row \<open>i\<close> of the
  inverse Hessian times the gradient of point \<open>s\<close>.
\<close>

lemma ExactIHVP_compute_ihvp_points:
  assumes "is_batched ds" and "is_mat n (nb_params (model self)) (batch_jacobian (model self) ds)"
    and "0 < nb_params (model self)"
  shows "ExactIHVP_compute_ihvp self (Points ds) =
     Inr (map (\<lambda>row. map (dot row) (batch_jacobian (model self) ds)) (inv_hessian self))"
  using assms reshape_rows_id [OF assms(2,3)]
  by (simp add: bind_result_def assert_batched_dataset_def matmul_transpose_b_def)

text \<open>
  C3 at a group of two batches of one vector each, with \<open>use_gradient=False\<close> and
  two parameters: the per-batch products, each of shape \<open>2 \<times> 1\<close>, are concatenated
  along axis 0. The result has shape \<open>4 \<times> 1\<close>: one column for two input points.
\<close>

theorem ExactIHVP_compute_ihvp_vectors_axis0:
  "ExactIHVP_compute_ihvp identity_exact_ihvp (Vectors two_vector_batches) =
     Inr [[Num 1], [Num 2], [Num 3], [Num 4]]"
  by (simp add: identity_exact_ihvp_def two_vector_batches_def bind_result_def
      assert_batched_dataset_def toy_model_def reshape_rows_def matmul_transpose_b_def dot_def
      tf_concat_axis0_def ncols_def zero_tfloat_def)


lemma ncols_is_mat: "is_mat p n m \<Longrightarrow> 0 < p \<Longrightarrow> ncols m = n"
  by (cases m) (simp_all add: is_mat_def ncols_def)

lemma tf_transpose_entries:
  assumes "is_mat p n m" "0 < p"
  shows "tf_transpose m = map (\<lambda>s. map (\<lambda>i. m ! i ! s) [0..<p]) [0..<n]"
proof -
  have "length m = p"
    using assms(1) by (simp add: is_mat_def)
  then have "column m s = map (\<lambda>i. m ! i ! s) [0..<p]" for s
    using map_index [of "\<lambda>row. row ! s" m] by (simp add: column_def)
  then show ?thesis
    by (simp add: tf_transpose_def ncols_is_mat [OF assms])
qed

lemma normalize_if_needed_entries:
  assumes "is_mat p n v" "0 < p"
  shows "is_mat p n (normalize_if_needed self v)"
    and "i < p \<Longrightarrow> s < n \<Longrightarrow> normalize_if_needed self v ! i ! s =
      (if normalize_flag self
            then tf_truediv (v ! i ! s) (tf_norm (tensor_format self) (column v s)) else v ! i ! s)"
proof -
  have nc: "ncols v = n"
    using assms by (rule ncols_is_mat)
  have len: "length v = p" and rows: "\<And>k. k < p \<Longrightarrow> length (v ! k) = n"
    using assms(1) by (simp_all add: is_mat_def list_all_length)
  show "is_mat p n (normalize_if_needed self v)"
    using assms(1) by (simp add: normalize_if_needed_def tf_norm_axis0_def nc is_mat_def
        list_all_length)
  show "normalize_if_needed self v ! i ! s =
      (if normalize_flag self
            then tf_truediv (v ! i ! s) (tf_norm (tensor_format self) (column v s)) else v ! i ! s)"
    if "i < p" "s < n"
    using that len rows [of i] by (simp add: normalize_if_needed_def tf_norm_axis0_def nc)
qed

lemma compute_influence_entries:
  assumes "is_batched ds" and "ihvp_calculator self ds = Inr v" and "is_mat p n v" and "0 < p"
  shows "compute_influence self ds =
     Inr (map (\<lambda>s. map (\<lambda>i.
            if normalize_flag self
            then tf_truediv (v ! i ! s) (tf_norm (tensor_format self) (column v s))
            else v ! i ! s) [0..<p]) [0..<n])"
proof -
  have "tf_transpose (normalize_if_needed self v) =
      map (\<lambda>s. map (\<lambda>i. normalize_if_needed self v ! i ! s) [0..<p]) [0..<n]"
    using assms(3,4) by (intro tf_transpose_entries normalize_if_needed_entries)
  also have "\<dots> = map (\<lambda>s. map (\<lambda>i.
            if normalize_flag self
            then tf_truediv (v ! i ! s) (tf_norm (tensor_format self) (column v s))
            else v ! i ! s) [0..<p]) [0..<n]"
    using assms(3,4) by (simp add: normalize_if_needed_entries cong: map_cong)
  finally show ?thesis
    using assms(1,2) by (simp add: compute_influence_def bind_result_def assert_batched_dataset_def)
qed

text \<open>
  C9, as the code has it. For a batched dataset on which the backend returns the IHVP
  matrix \<open>v\<close> of shape \<open>P \<times> n\<close> (one column per point), \<open>compute_influence\<close> returns the
  transpose, of shape \<open>n \<times> P\<close>: row \<open>s\<close> is column \<open>s\<close> of \<open>v\<close>, each entry divided by the
  L2 norm of that column, as \<open>tf.norm\<close> computes it, when \<open>normalize\<close> is set.
\<close>

theorem compute_influence_rows:
  assumes "is_batched ds" and "ihvp_calculator self ds = Inr v" and "is_mat p n v" and "0 < p"
  shows "compute_influence self ds =
     Inr (map (\<lambda>s. map (\<lambda>i.
            if normalize_flag self
            then tf_truediv (v ! i ! s) (tf_norm (tensor_format self) (column v s))
            else v ! i ! s) [0..<p]) [0..<n])"
  using assms by (rule compute_influence_entries)

lemma toy_calculator_ihvp:
  "ihvp_calculator (exact_calculator toy_exact_ihvp flag) toy_dataset = Inr [[Num (2 / 3), Num 2]]"
  by (simp add: exact_calculator_def toy_ihvp del: ExactIHVP_compute_ihvp.simps)

lemma exact_calculator_flag: "normalize_flag (exact_calculator ihvp flag) = flag"
  by (simp add: exact_calculator_def)

theorem compute_influence_rows_witness:
  "compute_influence (exact_calculator toy_exact_ihvp False) toy_dataset =
     Inr [[Num (2 / 3)], [Num 2]]"
  using compute_influence_rows [OF toy_dataset_batched toy_calculator_ihvp, of 1 2 False]
  by (simp add: is_mat_def upt_0_2 exact_calculator_flag)

text \<open>
  C9 as the specification states it fails on a dataset of two points and one parameter:
  the IHVP has one column per point, the returned matrix one row per point.
\<close>

theorem compute_influence_is_transposed:
  "compute_influence (exact_calculator toy_exact_ihvp False) toy_dataset =
     Inr [[Num (2 / 3)], [Num 2]] \<and>
   ExactIHVP_compute_ihvp toy_exact_ihvp (Points toy_dataset) = Inr [[Num (2 / 3), Num 2]]"
proof -
  have "tf_transpose [[Num (2 / 3), Num 2]] = [[Num (2 / 3)], [Num 2]]"
    by (simp add: tf_transpose_def ncols_def column_def upt_0_2)
  then have "compute_influence (exact_calculator toy_exact_ihvp False) toy_dataset =
     Inr [[Num (2 / 3)], [Num 2]]"
    by (simp add: compute_influence_def toy_calculator_ihvp toy_dataset_batched bind_result_def
        assert_batched_dataset_def normalize_if_needed_def exact_calculator_flag)
  then show ?thesis
    using toy_ihvp by simp
qed


lemma sum_list_Num: "sum_list (map (\<lambda>x. Num (f x)) xs) = Num (sum_list (map f xs))"
  by (induction xs) (simp_all add: zero_tfloat_def)

lemma sum_squares_nonneg: "0 \<le> sum_list (map (\<lambda>x. x * x) (xs :: real list))"
  by (induction xs) simp_all

lemma sum_squares_pos: "\<exists>x\<in>set xs. x \<noteq> 0 \<Longrightarrow> 0 < sum_list (map (\<lambda>x. x * x) (xs :: real list))"
proof (induction xs)
  case Nil
  then show ?case by simp
next
  case (Cons x xs)
  show ?case
  proof (cases "x = 0")
    case True
    with Cons show ?thesis by simp
  next
    case False
    then have "0 < x * x" by (auto simp: zero_less_mult_iff)
    with sum_squares_nonneg [of xs] show ?thesis by simp
  qed
qed

lemma sum_squares_zero:
  "\<forall>x\<in>set xs. x = 0 \<Longrightarrow> sum_list (map (\<lambda>x. x * x) (xs :: real list)) = 0"
  by (induction xs) simp_all

lemma square_le_sum_squares:
  "x \<in> set xs \<Longrightarrow> x * x \<le> sum_list (map (\<lambda>x. x * x) (xs :: real list))"
proof (induction xs)
  case Nil
  then show ?case by simp
next
  case (Cons y ys)
  show ?case
  proof (cases "x = y")
    case True
    then show ?thesis
      using sum_squares_nonneg [of ys] by simp
  next
    case False
    then have "x * x \<le> sum_list (map (\<lambda>x. x * x) ys)"
      using Cons by simp
    then show ?thesis
      by (simp add: add_increasing)
  qed
qed

lemma to_format_squares:
  assumes "in_float_range fmt xs"
  shows "map (\<lambda>x. to_format fmt (x * x)) (map Num xs) = map (\<lambda>x. Num (x * x)) xs"
proof -
  have huge: "sum_list (map (\<lambda>x. x * x) xs) \<le> fmt_huge fmt"
    and tiny: "\<And>x. x \<in> set xs \<Longrightarrow> x = 0 \<or> fmt_tiny fmt \<le> x * x"
    using assms by (simp_all add: in_float_range_def list_all_iff)
  have "to_format fmt (Num x * Num x) = Num (x * x)" if x: "x \<in> set xs" for x
  proof -
    have "x * x \<le> fmt_huge fmt"
      using square_le_sum_squares [OF x] huge by simp
    moreover have "\<bar>x * x\<bar> = x * x"
      by simp
    ultimately show ?thesis
      using tiny [OF x] by auto
  qed
  then show ?thesis
    by (simp add: comp_def)
qed

lemma tf_norm_Num:
  assumes "in_float_range fmt xs"
  shows "tf_norm fmt (map Num xs) = Num (l2_norm xs)"
proof -
  let ?q = "sum_list (map (\<lambda>x. x * x) xs)"
  have huge: "?q \<le> fmt_huge fmt"
    and tiny: "\<And>x. x \<in> set xs \<Longrightarrow> x = 0 \<or> fmt_tiny fmt \<le> x * x"
    using assms by (simp_all add: in_float_range_def list_all_iff)
  have q: "0 \<le> ?q"
    by (rule sum_squares_nonneg)
  have "sum_list (map (\<lambda>x. to_format fmt (x * x)) (map Num xs)) = Num ?q"
    by (simp only: to_format_squares [OF assms] sum_list_Num)
  moreover have "to_format fmt (Num ?q) = Num ?q"
  proof (cases "\<exists>x\<in>set xs. x \<noteq> 0")
    case True
    then obtain x where x: "x \<in> set xs" "x \<noteq> 0"
      by blast
    then have "fmt_tiny fmt \<le> x * x"
      using tiny by blast
    then have "fmt_tiny fmt \<le> ?q"
      using square_le_sum_squares [OF x(1)] by simp
    then show ?thesis
      using huge q by simp
  next
    case False
    then have "?q = 0"
      by (intro sum_squares_zero) blast
    then show ?thesis
      using huge by simp
  qed
  ultimately show ?thesis
    using q by (simp add: tf_norm_def l2_norm_def)
qed

lemma l2_norm_normalized:
  assumes "\<exists>x\<in>set xs. x \<noteq> 0"
  shows "l2_norm (map (\<lambda>x. x / l2_norm xs) xs) = 1"
proof -
  let ?q = "sum_list (map (\<lambda>x. x * x) xs)"
  have q: "0 < ?q"
    using assms by (rule sum_squares_pos)
  then have sq: "sqrt ?q * sqrt ?q = ?q"
    by simp
  have "sum_list (map (\<lambda>x. x * x) (map (\<lambda>x. x / sqrt ?q) xs)) =
      sum_list (map (\<lambda>x. x * x * (1 / ?q)) xs)"
    using sq by (simp add: comp_def)
  also have "\<dots> = ?q * (1 / ?q)"
    by (simp only: sum_list_mult_const)
  also have "\<dots> = 1"
    using q by simp
  finally show ?thesis
    by (simp add: l2_norm_def)
qed

lemma normalized_vector:
  assumes "in_float_range fmt xs"
  shows "map (\<lambda>x. tf_truediv x (tf_norm fmt (map Num xs))) (map Num xs) =
     (if \<exists>x\<in>set xs. x \<noteq> 0 then map Num (map (\<lambda>x. x / l2_norm xs) xs)
      else replicate (length xs) NaN)"
proof (cases "\<exists>x\<in>set xs. x \<noteq> 0")
  case True
  then have "0 < sum_list (map (\<lambda>x. x * x) xs)"
    by (rule sum_squares_pos)
  then have "l2_norm xs \<noteq> 0"
    by (simp add: l2_norm_def)
  then show ?thesis
    using True by (simp add: tf_norm_Num [OF assms] comp_def)
next
  case False
  then have "sum_list (map (\<lambda>x. x * x) xs) = 0"
    by (intro sum_squares_zero) blast
  then have "l2_norm xs = 0"
    by (simp add: l2_norm_def)
  then have "map (\<lambda>x. tf_truediv x (tf_norm fmt (map Num xs))) (map Num xs) = map (\<lambda>x. NaN) xs"
    using False by (simp add: tf_norm_Num [OF assms] comp_def)
  then show ?thesis
    using False by (simp add: map_replicate_const)
qed

lemma normalized_vector_unit:
  assumes "in_float_range fmt xs"
  shows "if \<exists>x\<in>set xs. x \<noteq> 0
     then \<exists>ys. map (\<lambda>x. tf_truediv x (tf_norm fmt (map Num xs))) (map Num xs) = map Num ys \<and>
       l2_norm ys = 1
     else map (\<lambda>x. tf_truediv x (tf_norm fmt (map Num xs))) (map Num xs) =
       replicate (length xs) NaN"
proof (cases "\<exists>x\<in>set xs. x \<noteq> 0")
  case True
  have "map (\<lambda>x. tf_truediv x (tf_norm fmt (map Num xs))) (map Num xs) =
      map Num (map (\<lambda>x. x / l2_norm xs) xs)"
    using normalized_vector [OF assms] by (simp only: if_P [OF True])
  then have "\<exists>ys. map (\<lambda>x. tf_truediv x (tf_norm fmt (map Num xs))) (map Num xs) = map Num ys \<and>
      l2_norm ys = 1"
    using l2_norm_normalized [OF True] by blast
  then show ?thesis
    by (simp only: if_P [OF True])
next
  case False
  have "map (\<lambda>x. tf_truediv x (tf_norm fmt (map Num xs))) (map Num xs) =
      replicate (length xs) NaN"
    using normalized_vector [OF assms] by (simp only: if_not_P [OF False])
  then show ?thesis
    by (simp only: if_not_P [OF False])
qed


lemma column_index: "length v = p \<Longrightarrow> column v s = map (\<lambda>i. v ! i ! s) [0..<p]"
  using map_index [of "\<lambda>row. row ! s" v] by (simp add: column_def)

lemma normalized_column:
  assumes "is_batched ds" and "ihvp_calculator self ds = Inr v" and "is_mat p n v" and "0 < p"
    and "normalize_flag self" and "s < n" and "column v s = map Num xs"
  shows "\<exists>r. compute_influence self ds = Inr r \<and> length r = n \<and>
     r ! s = map (\<lambda>x. tf_truediv x (tf_norm (tensor_format self) (map Num xs))) (map Num xs)"
proof -
  let ?r = "map (\<lambda>s. map (\<lambda>i. tf_truediv (v ! i ! s) (tf_norm (tensor_format self) (column v s)))
      [0..<p]) [0..<n]"
  have r: "compute_influence self ds = Inr ?r"
    using compute_influence_entries [OF assms(1-4)] assms(5) by simp
  have "length v = p"
    using assms(3) by (simp add: is_mat_def)
  then have col: "map (\<lambda>i. v ! i ! s) [0..<p] = map Num xs"
    using assms(7) by (simp add: column_index)
  have "?r ! s = map (\<lambda>x. tf_truediv x (tf_norm (tensor_format self) (map Num xs)))
      (map (\<lambda>i. v ! i ! s) [0..<p])"
    using assms(6,7) by (simp add: comp_def)
  then have "?r ! s = map (\<lambda>x. tf_truediv x (tf_norm (tensor_format self) (map Num xs)))
      (map Num xs)"
    by (simp only: col)
  then show ?thesis
    using r by simp
qed

lemma normalized_group:
  assumes "is_batched ds" and "ihvp_calculator self ds = Inr v" and "normalize_flag self"
    and "map sum_list v = map Num us"
  shows "compute_influence_group self ds =
     Inr [map (\<lambda>x. tf_truediv x (tf_norm (tensor_format self) (map Num us))) (map Num us)]"
  unfolding assms(4) [symmetric] using assms(1-3)
  by (simp add: compute_influence_group_def bind_result_def assert_batched_dataset_def
      normalize_if_needed_rank1_def)

text \<open>
  C7, as the code has it. With \<open>normalize\<close> set, take the IHVP column of a point in
  \<open>compute_influence\<close>, or the sum of the IHVP columns in \<open>compute_influence_group\<close>: a
  vector of numbers, within the range of the tensors' float format (no square of a
  non-zero entry underflows, the sum of the squares does not overflow). When it is not
  zero, the returned influence vector holds numbers and its L2 norm is 1 (rounding
  apart, which is not modelled). When it is exactly zero it is divided by its norm as
  well: the returned influence vector holds \<open>NaN\<close> in every entry.
\<close>

theorem normalized_influence_unit_norm:
  assumes "is_batched ds" and "ihvp_calculator self ds = Inr v" and "is_mat p n v" and "0 < p"
    and "normalize_flag self"
  shows "(s < n \<and> column v s = map Num xs \<and> in_float_range (tensor_format self) xs \<longrightarrow>
       (\<exists>r. compute_influence self ds = Inr r \<and> length r = n \<and>
          (if \<exists>x\<in>set xs. x \<noteq> 0 then \<exists>ys. r ! s = map Num ys \<and> l2_norm ys = 1
           else r ! s = replicate p NaN))) \<and>
     (map sum_list v = map Num us \<and> in_float_range (tensor_format self) us \<longrightarrow>
       (\<exists>row. compute_influence_group self ds = Inr [row] \<and>
          (if \<exists>u\<in>set us. u \<noteq> 0 then \<exists>ys. row = map Num ys \<and> l2_norm ys = 1
           else row = replicate p NaN)))"
proof (intro conjI impI)
  assume a: "s < n \<and> column v s = map Num xs \<and> in_float_range (tensor_format self) xs"
  then have "length (column v s) = length (map Num xs)"
    by simp
  then have len: "length xs = p"
    using assms(3) by (simp add: column_def is_mat_def)
  obtain r where r: "compute_influence self ds = Inr r" "length r = n"
    "r ! s = map (\<lambda>x. tf_truediv x (tf_norm (tensor_format self) (map Num xs))) (map Num xs)"
    using normalized_column [OF assms, of s xs] a by blast
  from a have rng: "in_float_range (tensor_format self) xs"
    by simp
  have "if \<exists>x\<in>set xs. x \<noteq> 0 then \<exists>ys. r ! s = map Num ys \<and> l2_norm ys = 1
      else r ! s = replicate p NaN"
    unfolding r(3) using normalized_vector_unit [OF rng] by (simp only: len)
  then show "\<exists>r. compute_influence self ds = Inr r \<and> length r = n \<and>
        (if \<exists>x\<in>set xs. x \<noteq> 0 then \<exists>ys. r ! s = map Num ys \<and> l2_norm ys = 1
         else r ! s = replicate p NaN)"
    using r(1,2) by blast
next
  assume a: "map sum_list v = map Num us \<and> in_float_range (tensor_format self) us"
  then have "length (map sum_list v) = length (map Num us)"
    by simp
  then have len: "length us = p"
    using assms(3) by (simp add: is_mat_def)
  from a have rng: "in_float_range (tensor_format self) us"
    by simp
  let ?row = "map (\<lambda>x. tf_truediv x (tf_norm (tensor_format self) (map Num us))) (map Num us)"
  have "compute_influence_group self ds = Inr [?row]"
    using normalized_group [OF assms(1,2,5)] a by blast
  moreover have "if \<exists>u\<in>set us. u \<noteq> 0 then \<exists>ys. ?row = map Num ys \<and> l2_norm ys = 1
      else ?row = replicate p NaN"
    using normalized_vector_unit [OF rng] by (simp only: len)
  ultimately show "\<exists>row. compute_influence_group self ds = Inr [row] \<and>
        (if \<exists>u\<in>set us. u \<noteq> 0 then \<exists>ys. row = map Num ys \<and> l2_norm ys = 1
         else row = replicate p NaN)"
    by blast
qed

lemma toy_single_ihvp:
  "ihvp_calculator (exact_calculator toy_exact_ihvp flag) toy_single_dataset = Inr [[Num 2]]"
  by (simp add: exact_calculator_def toy_exact_ihvp_def toy_single_dataset_def bind_result_def
      assert_batched_dataset_def toy_model_def toy_grad_def reshape_rows_def
      matmul_transpose_b_def dot_def)

lemma toy_single_batched: "is_batched toy_single_dataset"
  by (simp add: toy_single_dataset_def)

lemma toy_zero_batched: "is_batched toy_zero_dataset"
  by (simp add: toy_zero_dataset_def)

lemma toy_zero_ihvp:
  "ihvp_calculator (exact_calculator toy_exact_ihvp flag) toy_zero_dataset = Inr [[Num 0]]"
  by (simp add: exact_calculator_def toy_exact_ihvp_def toy_zero_dataset_def bind_result_def
      assert_batched_dataset_def toy_model_def toy_grad_def reshape_rows_def
      matmul_transpose_b_def dot_def)

lemma toy_huge_batched: "is_batched toy_huge_dataset"
  by (simp add: toy_huge_dataset_def)

lemma toy_huge_ihvp:
  "ihvp_calculator (exact_calculator toy_exact_ihvp flag) toy_huge_dataset =
     Inr [[Num (2 * 10 ^ 20)]]"
  by (simp add: exact_calculator_def toy_exact_ihvp_def toy_huge_dataset_def bind_result_def
      assert_batched_dataset_def toy_model_def toy_grad_def reshape_rows_def
      matmul_transpose_b_def dot_def)

lemma exact_calculator_format: "tensor_format (exact_calculator ihvp flag) = float32_format"
  by (simp add: exact_calculator_def)

lemma float32_range_two: "in_float_range float32_format [2]"
  by (simp add: in_float_range_def float32_format_def)

theorem normalized_influence_unit_norm_witness:
  "(\<exists>r. compute_influence (exact_calculator toy_exact_ihvp True) toy_single_dataset = Inr r \<and>
      length r = 1 \<and> (\<exists>ys. r ! 0 = map Num ys \<and> l2_norm ys = 1)) \<and>
   (\<exists>row. compute_influence_group (exact_calculator toy_exact_ihvp True) toy_single_dataset =
      Inr [row] \<and> (\<exists>ys. row = map Num ys \<and> l2_norm ys = 1))"
  using normalized_influence_unit_norm
    [where p = 1 and n = 1 and s = 0 and xs = "[2]" and us = "[2]",
     OF toy_single_batched toy_single_ihvp [of True]]
  by (simp add: is_mat_def exact_calculator_flag exact_calculator_format column_def
      float32_range_two)

text \<open>
  C7 as the specification states it fails at a point whose gradient is zero: its IHVP
  column is zero before the normalization and \<open>NaN\<close> after it. It also fails at a point
  whose IHVP column is the one number \<open>2 * 10\<^sup>20\<close>: the square overflows \<open>tf.float32\<close>, the
  norm is an infinity, and the returned influence vector is zero, of norm 0.
\<close>

theorem compute_influence_not_unit_norm:
  "compute_influence (exact_calculator toy_exact_ihvp True) toy_zero_dataset = Inr [[NaN]] \<and>
   ExactIHVP_compute_ihvp toy_exact_ihvp (Points toy_zero_dataset) = Inr [[Num 0]] \<and>
   compute_influence (exact_calculator toy_exact_ihvp True) toy_huge_dataset = Inr [[Num 0]] \<and>
   ExactIHVP_compute_ihvp toy_exact_ihvp (Points toy_huge_dataset) = Inr [[Num (2 * 10 ^ 20)]]"
proof -
  have "normalize_if_needed (exact_calculator toy_exact_ihvp True) [[Num 0]] = [[NaN]]"
    by (simp add: normalize_if_needed_def exact_calculator_flag exact_calculator_format
        tf_norm_axis0_def ncols_def column_def tf_norm_def zero_tfloat_def float32_format_def)
  moreover have "tf_transpose [[NaN]] = [[NaN]]"
    by (simp add: tf_transpose_def ncols_def column_def)
  ultimately have zero: "compute_influence (exact_calculator toy_exact_ihvp True) toy_zero_dataset =
      Inr [[NaN]]"
    by (simp add: compute_influence_def toy_zero_ihvp bind_result_def assert_batched_dataset_def
        toy_zero_batched)
  have "normalize_if_needed (exact_calculator toy_exact_ihvp True) [[Num (2 * 10 ^ 20)]] =
      [[Num 0]]"
    by (simp add: normalize_if_needed_def exact_calculator_flag exact_calculator_format
        tf_norm_axis0_def ncols_def column_def tf_norm_def zero_tfloat_def float32_format_def)
  moreover have "tf_transpose [[Num 0]] = [[Num 0]]"
    by (simp add: tf_transpose_def ncols_def column_def)
  ultimately have huge: "compute_influence (exact_calculator toy_exact_ihvp True) toy_huge_dataset =
      Inr [[Num 0]]"
    by (simp add: compute_influence_def toy_huge_ihvp bind_result_def assert_batched_dataset_def
        toy_huge_batched)
  show ?thesis
    using zero huge toy_zero_ihvp [of True] toy_huge_ihvp [of True]
    by (simp add: exact_calculator_def del: ExactIHVP_compute_ihvp.simps)
qed

text \<open>
  C8: when the IHVP of the group has one column (the group holds one point) and at least
  one row, \<open>compute_influence_group\<close> and \<open>compute_influence\<close> return the same, errors
  included.
\<close>

theorem compute_influence_group_singleton:
  assumes "case ihvp_calculator self ds of Inl e \<Rightarrow> True
           | Inr v \<Rightarrow> v \<noteq> [] \<and> list_all (\<lambda>row. length row = 1) v"
  shows "compute_influence_group self ds = compute_influence self ds"
proof (cases "ihvp_calculator self ds")
  case (Inl e)
  then show ?thesis
    by (simp add: compute_influence_group_def compute_influence_def bind_result_def)
next
  case (Inr v)
  let ?p = "length v"
  let ?u = "column v 0"
  have rows: "list_all (\<lambda>row. length row = 1) v" and p: "0 < ?p"
    using assms Inr by simp_all
  then have mat: "is_mat ?p 1 v"
    by (simp add: is_mat_def)
  have "sum_list row = row ! 0" if "length row = 1" for row :: vec
    using that by (cases row) simp_all
  then have sums: "map sum_list v = ?u"
    using rows by (simp add: column_def list_all_iff)
  show ?thesis
  proof (cases "is_batched ds")
    case False
    then show ?thesis
      by (simp add: compute_influence_group_def compute_influence_def bind_result_def
          assert_batched_dataset_def)
  next
    case True
    have "compute_influence self ds =
        Inr [map (\<lambda>i. if normalize_flag self
                       then tf_truediv (v ! i ! 0) (tf_norm (tensor_format self) ?u)
                       else v ! i ! 0) [0..<?p]]"
      using compute_influence_entries [OF True Inr mat p] by simp
    also have "map (\<lambda>i. if normalize_flag self
                       then tf_truediv (v ! i ! 0) (tf_norm (tensor_format self) ?u)
                       else v ! i ! 0) [0..<?p] = normalize_if_needed_rank1 self ?u"
      unfolding normalize_if_needed_rank1_def
      by (rule nth_equalityI) (simp_all add: column_def)
    finally show ?thesis
      using True Inr
      by (simp add: compute_influence_group_def bind_result_def assert_batched_dataset_def sums)
  qed
qed

theorem compute_influence_group_singleton_witness:
  "compute_influence_group (exact_calculator toy_exact_ihvp True) toy_single_dataset =
     compute_influence (exact_calculator toy_exact_ihvp True) toy_single_dataset \<and>
   compute_influence_group (exact_calculator toy_exact_ihvp True) toy_single_dataset =
     Inr [[Num 1]]"
proof -
  have "sqrt 4 = 2"
    using real_sqrt_abs [of 2] by simp
  then have "compute_influence_group (exact_calculator toy_exact_ihvp True) toy_single_dataset =
     Inr [[Num 1]]"
    by (simp add: compute_influence_group_def toy_single_ihvp bind_result_def
        assert_batched_dataset_def toy_single_batched normalize_if_needed_rank1_def
        exact_calculator_flag exact_calculator_format tf_norm_def zero_tfloat_def
        float32_format_def)
  then show ?thesis
    using compute_influence_group_singleton
      [of "exact_calculator toy_exact_ihvp True" toy_single_dataset]
    by (simp add: toy_single_ihvp)
qed

section \<open>The top-k search\<close>

lemma take_Cons_take: "take k (x # take k xs) = take k (x # xs)"
  by (cases k) (simp_all add: min_def)

lemma take_insert_entry: "take k (insert_entry e (take k xs)) = take k (insert_entry e xs)"
proof (induction xs arbitrary: k)
  case Nil
  then show ?case by simp
next
  case (Cons x xs)
  then show ?case by (cases k) (simp_all add: take_Cons_take)
qed

lemma take_foldl_insert_cong:
  "take k a = take k b \<Longrightarrow>
   take k (foldl (\<lambda>acc e. insert_entry e acc) a es) =
   take k (foldl (\<lambda>acc e. insert_entry e acc) b es)"
proof (induction es arbitrary: a b)
  case Nil
  then show ?case by simp
next
  case (Cons e es)
  have "take k (insert_entry e a) = take k (insert_entry e (take k a))"
    by (simp only: take_insert_entry)
  also have "\<dots> = take k (insert_entry e (take k b))"
    by (simp only: Cons.prems)
  also have "\<dots> = take k (insert_entry e b)"
    by (simp only: take_insert_entry)
  finally have "take k (foldl (\<lambda>acc e. insert_entry e acc) (insert_entry e a) es) =
      take k (foldl (\<lambda>acc e. insert_entry e acc) (insert_entry e b) es)"
    by (rule Cons.IH)
  then show ?case by simp
qed

lemma add_row_append: "add_row k (add_row k row es) es' = add_row k row (es @ es')"
  using take_foldl_insert_cong [of k "take k (foldl (\<lambda>acc e. insert_entry e acc) row es)"
      "foldl (\<lambda>acc e. insert_entry e acc) row es" es']
  by (simp add: add_row_def)

lemma mset_insert_entry: "mset (insert_entry e xs) = add_mset e (mset xs)"
  by (induction xs) simp_all

lemma set_insert_entry: "set (insert_entry e xs) = insert e (set xs)"
  by (induction xs) auto

lemma sorted_insert_entry:
  "sorted (rev (map fst xs)) \<Longrightarrow> sorted (rev (map fst (insert_entry e xs)))"
  by (induction xs) (auto simp: sorted_append set_insert_entry)

lemma foldl_insert_entries:
  "sorted (rev (map fst row)) \<Longrightarrow>
   sorted (rev (map fst (foldl (\<lambda>acc e. insert_entry e acc) row es))) \<and>
   mset (foldl (\<lambda>acc e. insert_entry e acc) row es) = mset row + mset es"
  by (induction es arbitrary: row) (simp_all add: sorted_insert_entry mset_insert_entry)

lemma scores_foldl_insert:
  "map fst (foldl (\<lambda>acc e. insert_entry e acc) [] es) = rev (sort (map fst es))"
proof -
  let ?r = "foldl (\<lambda>acc e. insert_entry e acc) [] es"
  have "sorted (rev (map fst ?r))" and "mset ?r = mset es"
    using foldl_insert_entries [of "[]" es] by simp_all
  from this(2) have "mset (map fst ?r) = mset (map fst es)"
    by (metis mset_map)
  with \<open>sorted (rev (map fst ?r))\<close> have "sort (map fst es) = rev (map fst ?r)"
    by (intro properties_for_sort) simp_all
  then show ?thesis
    by (simp add: rev_swap)
qed

lemma add_row_scores_mset:
  assumes "mset es = mset es'"
  shows "map fst (add_row k [] es) = map fst (add_row k [] es')"
proof -
  have "image_mset fst (mset es) = image_mset fst (mset es')"
    using assms by simp
  then have "mset (map fst es) = mset (map fst es')"
    by simp
  then have "sort (map fst es) = sort (map fst es')"
    by (intro properties_for_sort) simp_all
  then show ?thesis
    unfolding add_row_def take_map [symmetric] scores_foldl_insert by simp
qed


lemma top_k_loop_Cons:
  "top_k_loop self cast grads dic (b # rest) =
     bind_result (batch_scores self cast grads b) (\<lambda>scores.
       top_k_loop self cast grads (add_all dic scores (replicate (length grads) (fst b))) rest)"
  by (simp add: batch_scores_def bind_result_def Let_def split: sum.splits)

lemma length_batch_scores:
  "batch_scores self cast grads b = Inr scores \<Longrightarrow> length scores = length grads"
  by (auto simp: batch_scores_def bind_result_def matmul_def matmul_transpose_b_def
      split: sum.splits)

lemma add_all_rows:
  assumes "length (dict_rows dic) = n" "length scores = n"
  shows "k_largest (add_all dic scores (replicate n payloads)) = k_largest dic"
    and "dict_rows (add_all dic scores (replicate n payloads)) =
      map (\<lambda>i. add_row (k_largest dic) (dict_rows dic ! i) (zip (scores ! i) payloads)) [0..<n]"
  using assms by (auto simp: add_all_def intro!: nth_equalityI)

lemma length_add_row: "length (add_row k row es) \<le> k"
  by (simp add: add_row_def)

lemma add_row_Nil: "length row \<le> k \<Longrightarrow> add_row k row [] = row"
  by (simp add: add_row_def)

lemma row_entries_Cons:
  "row_entries self cast grads (b # bs) i =
     zip (projr (batch_scores self cast grads b) ! i) (fst b) @ row_entries self cast grads bs i"
  by (simp add: row_entries_def)

lemma top_k_loop_rows:
  assumes "length (dict_rows dic) = length grads"
    and "list_all (\<lambda>row. length row \<le> k_largest dic) (dict_rows dic)"
    and "list_all (\<lambda>b. \<not> isl (batch_scores self cast grads b)) bs"
  shows "top_k_loop self cast grads dic bs =
     Inr (dic\<lparr>dict_rows :=
       map (\<lambda>i. add_row (k_largest dic) (dict_rows dic ! i) (row_entries self cast grads bs i))
         [0..<length grads]\<rparr>)"
  using assms
proof (induction bs arbitrary: dic)
  case Nil
  have "map (\<lambda>i. add_row (k_largest dic) (dict_rows dic ! i) []) [0..<length grads] =
      dict_rows dic"
    using Nil.prems(1,2) by (auto simp: add_row_Nil list_all_length intro!: nth_equalityI)
  then show ?case
    by (simp add: row_entries_def)
next
  case (Cons b bs)
  let ?n = "length grads"
  let ?k = "k_largest dic"
  obtain scores where scores: "batch_scores self cast grads b = Inr scores"
    using Cons.prems(3) by (cases "batch_scores self cast grads b") simp_all
  then have len: "length scores = ?n"
    by (rule length_batch_scores)
  let ?dic = "add_all dic scores (replicate ?n (fst b))"
  have k: "k_largest ?dic = ?k"
    and rows: "dict_rows ?dic =
      map (\<lambda>i. add_row ?k (dict_rows dic ! i) (zip (scores ! i) (fst b))) [0..<?n]"
    using add_all_rows [OF Cons.prems(1) len] by simp_all
  have "top_k_loop self cast grads ?dic bs =
     Inr (?dic\<lparr>dict_rows :=
       map (\<lambda>i. add_row (k_largest ?dic) (dict_rows ?dic ! i) (row_entries self cast grads bs i))
         [0..<?n]\<rparr>)"
  proof (rule Cons.IH)
    show "length (dict_rows ?dic) = ?n"
      by (simp add: rows)
    show "list_all (\<lambda>row. length row \<le> k_largest ?dic) (dict_rows ?dic)"
      by (simp add: rows k list_all_iff length_add_row)
    show "list_all (\<lambda>b. \<not> isl (batch_scores self cast grads b)) bs"
      using Cons.prems(3) by simp
  qed
  also have "map (\<lambda>i. add_row (k_largest ?dic) (dict_rows ?dic ! i)
        (row_entries self cast grads bs i)) [0..<?n] =
      map (\<lambda>i. add_row ?k (dict_rows dic ! i) (row_entries self cast grads (b # bs) i)) [0..<?n]"
    by (rule map_cong [OF refl]) (simp add: rows k add_row_append row_entries_Cons scores)
  finally show ?case
    by (simp add: top_k_loop_Cons scores bind_result_def add_all_def del: top_k_loop.simps)
qed

lemma top_k_loop_fails:
  assumes "\<not> list_all (\<lambda>b. \<not> isl (batch_scores self cast grads b)) bs"
  shows "isl (top_k_loop self cast grads dic bs)"
  using assms
proof (induction bs arbitrary: dic)
  case Nil
  then show ?case by simp
next
  case (Cons b bs)
  show ?case
  proof (cases "batch_scores self cast grads b")
    case (Inl e)
    then show ?thesis
      by (simp add: top_k_loop_Cons bind_result_def del: top_k_loop.simps)
  next
    case (Inr scores)
    then have "\<not> list_all (\<lambda>b. \<not> isl (batch_scores self cast grads b)) bs"
      using Cons.prems by simp
    then show ?thesis
      using Inr by (simp add: top_k_loop_Cons bind_result_def Cons.IH del: top_k_loop.simps)
  qed
qed


lemma top_k_rows:
  assumes "list_all (\<lambda>b. \<not> isl (batch_scores self (element_cast ds) grads b)) (batches ds)"
    and "grads = batch_jacobian_tensor (fo_model self) (fst q) (snd q)"
  shows "top_k self q ds k =
     Inr (map (\<lambda>i. map fst (add_row k [] (row_entries self (element_cast ds) grads (batches ds) i)))
            [0..<length grads],
          map (\<lambda>i. map snd (add_row k [] (row_entries self (element_cast ds) grads (batches ds) i)))
            [0..<length grads])"
proof -
  let ?dic = "BatchedSortedDict (length grads) k :: (tfloat, 'a) batched_sorted_dict"
  have "top_k_loop self (element_cast ds) grads ?dic (batches ds) =
     Inr (?dic\<lparr>dict_rows :=
       map (\<lambda>i. add_row (k_largest ?dic) (dict_rows ?dic ! i)
              (row_entries self (element_cast ds) grads (batches ds) i))
         [0..<length grads]\<rparr>)"
    using assms(1) by (intro top_k_loop_rows) (simp_all add: BatchedSortedDict_def list_all_iff)
  also have "map (\<lambda>i. add_row (k_largest ?dic) (dict_rows ?dic ! i)
              (row_entries self (element_cast ds) grads (batches ds) i)) [0..<length grads] =
      map (\<lambda>i. add_row k [] (row_entries self (element_cast ds) grads (batches ds) i))
        [0..<length grads]"
    by (rule map_cong [OF refl]) (simp add: BatchedSortedDict_def)
  finally show ?thesis
    by (simp add: top_k_def Let_def assms(2) [symmetric] bind_result_def get_rows_def comp_def)
qed

lemma top_k_fails:
  assumes "\<not> list_all (\<lambda>b. \<not> isl (batch_scores self (element_cast ds) grads b)) (batches ds)"
    and "grads = batch_jacobian_tensor (fo_model self) (fst q) (snd q)"
  shows "isl (top_k self q ds k)"
proof -
  have "isl (top_k_loop self (element_cast ds) grads (BatchedSortedDict (length grads) k)
      (batches ds))"
    using assms(1) by (rule top_k_loop_fails)
  then show ?thesis
    by (cases "top_k_loop self (element_cast ds) grads (BatchedSortedDict (length grads) k)
      (batches ds)") (simp_all add: top_k_def Let_def assms(2) [symmetric] bind_result_def)
qed

lemma mset_row_entries:
  assumes "mset bs' = mset bs"
  shows "mset (row_entries self cast grads bs' i) = mset (row_entries self cast grads bs i)"
proof -
  let ?f = "\<lambda>b. mset (zip (projr (batch_scores self cast grads b) ! i) (fst b))"
  have "mset (row_entries self cast grads xs i) = sum_mset (image_mset ?f (mset xs))" for xs
    by (induction xs) (simp_all add: row_entries_def)
  then show ?thesis
    using assms by simp
qed

lemma foldl_insert_distinct:
  assumes "mset es' = mset es" and "distinct (map fst es)"
  shows "foldl (\<lambda>acc e. insert_entry e acc) [] es' = foldl (\<lambda>acc e. insert_entry e acc) [] es"
proof -
  have inj: "inj_on fst (set es)"
    using assms(2) by (simp add: distinct_map)
  have "sort_key fst es = rev (foldl (\<lambda>acc e. insert_entry e acc) [] xs)" if "mset xs = mset es" for xs
  proof (rule sort_key_inj_key_eq [OF _ inj])
    show "mset es = mset (rev (foldl (\<lambda>acc e. insert_entry e acc) [] xs))"
      using foldl_insert_entries [of "[]" xs] that by simp
    show "sorted (map fst (rev (foldl (\<lambda>acc e. insert_entry e acc) [] xs)))"
      using foldl_insert_entries [of "[]" xs] by (simp add: rev_map)
  qed
  from this [of es'] this [of es] assms(1) show ?thesis
    by simp
qed

text \<open>
  C6, as the accumulator of the specification has it. Feeding the batches of a training
  set to \<open>top_k\<close> in another order changes neither whether it fails nor the sorted score
  lists it returns per query row. When the scores of every query row are pairwise
  distinct, the returned training samples are the same as well.
\<close>

theorem top_k_batch_order_scores:
  assumes "mset bs' = mset (batches ds)"
    and "grads = batch_jacobian_tensor (fo_model self) (fst q) (snd q)"
  shows "map_sum (\<lambda>e. ()) fst (top_k self q (ds\<lparr>batches := bs'\<rparr>) k) =
     map_sum (\<lambda>e. ()) fst (top_k self q ds k) \<and>
   (list_all (\<lambda>i. distinct (map fst (row_entries self (element_cast ds) grads (batches ds) i)))
      [0..<length grads] \<longrightarrow>
    map_sum (\<lambda>e. ()) id (top_k self q (ds\<lparr>batches := bs'\<rparr>) k) =
      map_sum (\<lambda>e. ()) id (top_k self q ds k))"
proof -
  let ?ok = "\<lambda>b. \<not> isl (batch_scores self (element_cast ds) grads b)"
  let ?ds' = "ds\<lparr>batches := bs'\<rparr>"
  let ?entries = "row_entries self (element_cast ds) grads"
  have same: "list_all ?ok bs' = list_all ?ok (batches ds)"
    using mset_eq_setD [OF assms(1)] by (simp add: list_all_iff)
  show ?thesis
  proof (cases "list_all ?ok (batches ds)")
    case True
    have run: "top_k self q ds k =
        Inr (map (\<lambda>i. map fst (add_row k [] (?entries (batches ds) i))) [0..<length grads],
             map (\<lambda>i. map snd (add_row k [] (?entries (batches ds) i))) [0..<length grads])"
      and run': "top_k self q ?ds' k =
        Inr (map (\<lambda>i. map fst (add_row k [] (?entries bs' i))) [0..<length grads],
             map (\<lambda>i. map snd (add_row k [] (?entries bs' i))) [0..<length grads])"
      using top_k_rows [of self ds grads q k] top_k_rows [of self ?ds' grads q k] True same assms(2)
      by simp_all
    have scores: "map (\<lambda>i. map fst (add_row k [] (?entries bs' i))) [0..<length grads] =
        map (\<lambda>i. map fst (add_row k [] (?entries (batches ds) i))) [0..<length grads]"
      by (rule map_cong [OF refl]) (rule add_row_scores_mset, rule mset_row_entries, rule assms)
    have rows: "add_row k [] (?entries bs' i) = add_row k [] (?entries (batches ds) i)"
      if "list_all (\<lambda>i. distinct (map fst (?entries (batches ds) i))) [0..<length grads]"
        and "i < length grads" for i
    proof -
      have "distinct (map fst (?entries (batches ds) i))"
        using that by (simp add: list_all_iff)
      then show ?thesis
        using foldl_insert_distinct [OF mset_row_entries [OF assms(1)]]
        by (simp add: add_row_def)
    qed
    show ?thesis
      using scores rows by (simp add: run run' cong: map_cong)
  next
    case False
    then have "isl (top_k self q ds k)" and "isl (top_k self q ?ds' k)"
      using top_k_fails [of self ds grads q k] top_k_fails [of self ?ds' grads q k] same assms(2)
      by simp_all
    then show ?thesis
      by (cases "top_k self q ds k"; cases "top_k self q ?ds' k") simp_all
  qed
qed





lemma toy_batch_scores:
  "batch_scores (exact_calculator toy_exact_ihvp False) (\<lambda>x. x) [[Num 1]] ([x], [y]) =
     Inr [[Num (2 / 3 * (x / 2 - y))]]"
  by (simp add: batch_scores_def dataset_of_batch_def bind_result_def exact_calculator_def
      assert_batched_dataset_def toy_exact_ihvp_def toy_model_def toy_grad_def reshape_rows_def
      matmul_transpose_b_def matmul_def tf_transpose_def ncols_def column_def dot_def
      normalize_if_needed_def zero_tfloat_def)

lemma toy_top_k:
  "top_k (exact_calculator toy_exact_ihvp False) ([2], [0])
     \<lparr>is_batched = True, ds_batch_size = Suc 0, element_cast = (\<lambda>x. x),
      batches = [([a], [b]), ([c], [d])]\<rparr> (Suc 0) =
   Inr (let s = Num (2 / 3 * (a / 2 - b)); t = Num (2 / 3 * (c / 2 - d)) in
        if t \<le> s then ([[s]], [[a]]) else ([[t]], [[c]]))"
proof -
  have grads: "batch_jacobian_tensor (fo_model (exact_calculator toy_exact_ihvp False)) [2] [0] =
      [[Num 1]]"
    by (simp add: exact_calculator_def toy_exact_ihvp_def toy_model_def toy_grad_def)
  show ?thesis
    by (simp add: top_k_def grads top_k_loop_Cons toy_batch_scores bind_result_def
        BatchedSortedDict_def add_all_def add_row_def get_rows_def Let_def
        del: top_k_loop.simps(2))
qed

text \<open>
  C6 as the specification states it fails on the top-k set when scores tie: with \<open>k = 1\<close>
  and two training points of one score, the point that is kept is the one seen first.
\<close>

theorem top_k_tie_depends_on_order:
  "top_k (exact_calculator toy_exact_ihvp False) ([2], [0]) tie_dataset 1 =
     Inr ([[Num (2 / 3)]], [[2]]) \<and>
   top_k (exact_calculator toy_exact_ihvp False) ([2], [0]) tie_dataset_rev 1 =
     Inr ([[Num (2 / 3)]], [[4]])"
  by (simp add: tie_dataset_def tie_dataset_rev_def toy_top_k)

lemma toy_row_entries:
  "row_entries (exact_calculator toy_exact_ihvp False) (\<lambda>x. x) [[Num 1]]
     [([a], [b]), ([c], [d])] 0 =
   [(Num (2 / 3 * (a / 2 - b)), a), (Num (2 / 3 * (c / 2 - d)), c)]"
  by (simp add: row_entries_def toy_batch_scores)

theorem top_k_batch_order_scores_witness:
  "top_k (exact_calculator toy_exact_ihvp False) ([2], [0]) ranked_dataset_rev 1 =
     Inr ([[Num (4 / 3)]], [[4]]) \<and>
   top_k (exact_calculator toy_exact_ihvp False) ([2], [0]) ranked_dataset 1 =
     Inr ([[Num (4 / 3)]], [[4]])"
proof -
  let ?c = "exact_calculator toy_exact_ihvp False"
  have rev: "ranked_dataset\<lparr>batches := [([4], [0]), ([2], [0])]\<rparr> = ranked_dataset_rev"
    by (simp add: ranked_dataset_def ranked_dataset_rev_def)
  have perm: "mset [([4], [0]), ([2 :: real], [0 :: real])] = mset (batches ranked_dataset)"
    by (simp add: ranked_dataset_def)
  have grads: "[[Num 1]] = batch_jacobian_tensor (fo_model ?c) (fst ([2], [0])) (snd ([2], [0]))"
    by (simp add: exact_calculator_def toy_exact_ihvp_def toy_model_def toy_grad_def)
  have distinct:
    "list_all (\<lambda>i. distinct (map fst
        (row_entries ?c (element_cast ranked_dataset) [[Num 1]] (batches ranked_dataset) i)))
      [0..<length [[Num 1 :: tfloat]]]"
    by (simp add: ranked_dataset_def toy_row_entries)
  have run: "top_k ?c ([2], [0]) ranked_dataset 1 = Inr ([[Num (4 / 3)]], [[4]])"
    by (simp add: ranked_dataset_def toy_top_k)
  show ?thesis
    using top_k_batch_order_scores [OF perm grads, of 1] distinct run
    by (cases "top_k ?c ([2], [0]) ranked_dataset_rev 1") (simp_all add: rev)
qed


section \<open>The matrix-free Hessian-vector product\<close>

lemma vadd_nth: "length u = p \<Longrightarrow> length v = p \<Longrightarrow> j < p \<Longrightarrow> vadd u v ! j = u ! j + v ! j"
  by (simp add: vadd_def)

lemma length_vadd: "length u = p \<Longrightarrow> length v = p \<Longrightarrow> length (vadd u v) = p"
  by (simp add: vadd_def)

lemma foldl_vadd:
  "length u = p \<Longrightarrow> list_all (\<lambda>v. length v = p) vs \<Longrightarrow>
   length (foldl vadd u vs) = p \<and>
   (\<forall>j<p. foldl vadd u vs ! j = u ! j + sum_list (map (\<lambda>v. v ! j) vs))"
proof (induction vs arbitrary: u)
  case Nil
  then show ?case by simp
next
  case (Cons v vs)
  then show ?case
    by (simp add: length_vadd vadd_nth add.assoc)
qed


lemma call_loop_step:
  "call_loop self x it (i, hvp, heap) =
     (if i < cg_cardinality self then
        (case heap ! it of
           [] \<Rightarrow> (Inl OutOfRangeError, heap)
         | block # rest \<Rightarrow>
             call_loop self x it (i + 1, vadd hvp (batch_hvp self x block), heap[it := rest]))
      else (Inr hvp, heap))"
  by (subst call_loop.simps) (simp add: batch_hvp_def Let_def split: list.splits)

lemma call_loop_run:
  assumes "nat (cg_cardinality self - i) = n" and "n \<le> length bs"
    and "it < length heap" and "heap ! it = bs"
  shows "call_loop self x it (i, hvp, heap) =
     (Inr (foldl vadd hvp (map (batch_hvp self x) (take n bs))), heap[it := drop n bs])"
  using assms
proof (induction n arbitrary: i hvp heap bs)
  case 0
  then have "\<not> i < cg_cardinality self"
    by simp
  moreover have "heap[it := bs] = heap"
    using "0.prems"(3,4) by (simp add: list_update_same_conv)
  ultimately show ?case
    by (subst call_loop_step) simp
next
  case (Suc n)
  then have less: "i < cg_cardinality self"
    by simp
  obtain block rest where bs: "bs = block # rest"
    using Suc.prems(2) by (cases bs) simp_all
  have "call_loop self x it (i + 1, vadd hvp (batch_hvp self x block), heap[it := rest]) =
     (Inr (foldl vadd (vadd hvp (batch_hvp self x block)) (map (batch_hvp self x) (take n rest))),
      heap[it := rest, it := drop n rest])"
    using Suc.prems by (intro Suc.IH) (simp_all add: bs)
  then show ?case
    using less Suc.prems(4) by (subst call_loop_step) (simp add: bs)
qed

lemma call_loop_heap:
  assumes "nat (cg_cardinality self - i) = n"
    and "it < length heap" and "it' < length heap'" and "heap ! it = heap' ! it'"
  shows "fst (call_loop self x it (i, hvp, heap)) = fst (call_loop self x it' (i, hvp, heap'))"
  using assms
proof (induction n arbitrary: i hvp heap heap')
  case 0
  then have "\<not> i < cg_cardinality self"
    by simp
  then show ?case
    by (subst (1 2) call_loop_step) simp
next
  case (Suc n)
  then have less: "i < cg_cardinality self"
    by simp
  show ?case
  proof (cases "heap ! it")
    case Nil
    moreover from Nil have "heap' ! it' = []"
      using Suc.prems(4) by simp
    ultimately show ?thesis
      using less by (subst (1 2) call_loop_step) simp
  next
    case (Cons block rest)
    have "fst (call_loop self x it (i + 1, vadd hvp (batch_hvp self x block), heap[it := rest])) =
        fst (call_loop self x it' (i + 1, vadd hvp (batch_hvp self x block), heap'[it' := rest]))"
      using Suc.prems by (intro Suc.IH) simp_all
    moreover from Cons have "heap' ! it' = block # rest"
      using Suc.prems(4) by simp
    ultimately show ?thesis
      using less Cons by (subst (1 2) call_loop_step) simp
  qed
qed

lemma fst_call_heap: "fst (call self heap' x_initial) = fst (call self heap x_initial)"
proof (cases "reshape_vector x_initial (cg_weight_sizes self)")
  case (Inl e)
  then show ?thesis
    by (simp add: call_def)
next
  case (Inr x)
  have "fst (call_loop self x (length heap') (0, replicate (cg_nb_params self) 0,
          heap' @ [cg_train_set self])) =
      fst (call_loop self x (length heap) (0, replicate (cg_nb_params self) 0,
          heap @ [cg_train_set self]))"
    by (rule call_loop_heap [OF refl]) simp_all
  then show ?thesis
    by (simp add: call_def Inr Let_def split_beta)
qed

text \<open>
  C5: when the vector fits the weights and \<open>cardinality\<close> is between zero and the number
  of batches of the feature-map dataset, an invocation of \<open>__call__\<close> creates one new
  iterator and leaves it advanced by exactly \<open>cardinality\<close> batches, every older
  iterator untouched; and the invocation that follows, in the heap the first one left,
  returns the same result.
\<close>

theorem call_fresh_iterator:
  assumes "reshape_vector x_initial (cg_weight_sizes self) = Inr x"
    and "0 \<le> cg_cardinality self"
    and "cg_cardinality self \<le> int (length (cg_train_set self))"
  shows "snd (call self heap x_initial) =
       heap @ [drop (nat (cg_cardinality self)) (cg_train_set self)] \<and>
     fst (call self (snd (call self heap x_initial)) x_initial) = fst (call self heap x_initial)"
proof -
  have "call_loop self x (length heap) (0, replicate (cg_nb_params self) 0,
          heap @ [cg_train_set self]) =
     (Inr (foldl vadd (replicate (cg_nb_params self) 0)
        (map (batch_hvp self x) (take (nat (cg_cardinality self)) (cg_train_set self)))),
      (heap @ [cg_train_set self])
        [length heap := drop (nat (cg_cardinality self)) (cg_train_set self)])"
    using assms(2,3) by (intro call_loop_run) simp_all
  then have "snd (call self heap x_initial) =
       heap @ [drop (nat (cg_cardinality self)) (cg_train_set self)]"
    by (simp add: call_def assms(1) Let_def)
  then show ?thesis
    using fst_call_heap [of self "snd (call self heap x_initial)" x_initial heap] by simp
qed

lemma toy_cgd_fields:
  "cg_nb_params toy_cgd = 1" "cg_weight_sizes toy_cgd = [1]" "cg_n_hessian toy_cgd = 2"
  "cg_cardinality toy_cgd = 1" "cg_train_set toy_cgd = [([2, 4], [0, - 1])]"
  by (simp_all add: toy_cgd_def)

lemma toy_cgd_reshape: "reshape_vector [Num c] (cg_weight_sizes toy_cgd) = Inr [[Num c]]"
  by (simp add: toy_cgd_fields bind_result_def)

theorem call_fresh_iterator_witness:
  "snd (call toy_cgd [] [Num 1]) = [[]] \<and>
   fst (call toy_cgd (snd (call toy_cgd [] [Num 1])) [Num 1]) = fst (call toy_cgd [] [Num 1])"
  using call_fresh_iterator [OF toy_cgd_reshape [of 1], where heap = "[]"]
  by (auto simp: toy_cgd_fields)


lemma sub_call_single:
  "sub_call self x [f] [l] =
     map (\<lambda>h. h * tf_truediv (Num 1) (Num (real (cg_n_hessian self))))
       (concat (cg_jvp self x [f] [l]))"
  by (simp add: sub_call_def del: tf_truediv.simps)

lemma batch_hvp_entries:
  assumes "list_all (\<lambda>elt. length (concat (cg_jvp self x [fst elt] [snd elt])) = cg_nb_params self)
      (zip (fst block) (snd block))"
  shows "length (batch_hvp self x block) = cg_nb_params self"
    and "j < cg_nb_params self \<Longrightarrow> batch_hvp self x block ! j =
      sum_list (map (\<lambda>elt. concat (cg_jvp self x [fst elt] [snd elt]) ! j
          * tf_truediv (Num 1) (Num (real (cg_n_hessian self))))
        (zip (fst block) (snd block)))"
proof -
  let ?p = "cg_nb_params self"
  let ?vs = "map (\<lambda>elt. sub_call self x [fst elt] [snd elt]) (zip (fst block) (snd block))"
  have lens: "list_all (\<lambda>v. length v = ?p) ?vs"
    using assms by (simp add: list_all_iff sub_call_single)
  have sum: "length (foldl vadd (replicate ?p 0) ?vs) = ?p \<and>
      (\<forall>j<?p. foldl vadd (replicate ?p 0) ?vs ! j =
        replicate ?p 0 ! j + sum_list (map (\<lambda>v. v ! j) ?vs))"
    by (rule foldl_vadd [OF _ lens]) simp
  then show "length (batch_hvp self x block) = ?p"
    by (simp add: batch_hvp_def reduce_sum_rows_def)
  show "batch_hvp self x block ! j =
      sum_list (map (\<lambda>elt. concat (cg_jvp self x [fst elt] [snd elt]) ! j
          * tf_truediv (Num 1) (Num (real (cg_n_hessian self))))
        (zip (fst block) (snd block)))" if j: "j < ?p"
  proof -
    have "batch_hvp self x block ! j = sum_list (map (\<lambda>v. v ! j) ?vs)"
      using sum j by (simp add: batch_hvp_def reduce_sum_rows_def)
    also have "map (\<lambda>v. v ! j) ?vs =
        map (\<lambda>elt. concat (cg_jvp self x [fst elt] [snd elt]) ! j
          * tf_truediv (Num 1) (Num (real (cg_n_hessian self)))) (zip (fst block) (snd block))"
      using assms j by (auto simp: list_all_iff sub_call_single simp del: tf_truediv.simps)
    finally show ?thesis .
  qed
qed

lemma call_accumulates:
  assumes "reshape_vector x_initial (cg_weight_sizes self) = Inr x"
    and "cg_cardinality self = int (length (cg_train_set self))"
    and "list_all (\<lambda>block. list_all (\<lambda>elt.
            length (concat (cg_jvp self x [fst elt] [snd elt])) = cg_nb_params self)
          (zip (fst block) (snd block))) (cg_train_set self)"
  shows "fst (call self heap x_initial) = Inr (sample_weighted_hvp self x)"
proof -
  let ?p = "cg_nb_params self"
  let ?ts = "cg_train_set self"
  let ?h = "foldl vadd (replicate ?p 0) (map (batch_hvp self x) ?ts)"
  have "call_loop self x (length heap) (0, replicate ?p 0, heap @ [?ts]) =
     (Inr (foldl vadd (replicate ?p 0) (map (batch_hvp self x) (take (length ?ts) ?ts))),
      (heap @ [?ts])[length heap := drop (length ?ts) ?ts])"
    using assms(2) by (intro call_loop_run) simp_all
  then have loop: "fst (call_loop self x (length heap) (0, replicate ?p 0, heap @ [?ts])) = Inr ?h"
    by simp
  have lens: "list_all (\<lambda>v. length v = ?p) (map (batch_hvp self x) ?ts)"
    using assms(3) by (simp add: list_all_iff batch_hvp_entries(1))
  have h: "length ?h = ?p \<and>
      (\<forall>j<?p. ?h ! j = replicate ?p 0 ! j + sum_list (map (\<lambda>v. v ! j) (map (batch_hvp self x) ?ts)))"
    by (rule foldl_vadd [OF _ lens]) simp
  have entry: "?h ! j = sum_list (map (\<lambda>block. sum_list (map (\<lambda>elt.
            concat (cg_jvp self x [fst elt] [snd elt]) ! j
              * tf_truediv (Num 1) (Num (real (cg_n_hessian self))))
          (zip (fst block) (snd block)))) ?ts)" if j: "j < ?p" for j
  proof -
    have "map (\<lambda>v. v ! j) (map (batch_hvp self x) ?ts) =
        map (\<lambda>block. sum_list (map (\<lambda>elt.
            concat (cg_jvp self x [fst elt] [snd elt]) ! j
              * tf_truediv (Num 1) (Num (real (cg_n_hessian self))))
          (zip (fst block) (snd block)))) ?ts"
      using assms(3) j by (auto simp: list_all_iff batch_hvp_entries(2) simp del: tf_truediv.simps)
    moreover have "?h ! j =
        replicate ?p 0 ! j + sum_list (map (\<lambda>v. v ! j) (map (batch_hvp self x) ?ts))"
      using h j by blast
    moreover have "replicate ?p (0 :: tfloat) ! j = 0"
      using j by simp
    ultimately show ?thesis
      by (simp only: add_0)
  qed
  have "map (\<lambda>v. [v]) ?h = map (\<lambda>j. [?h ! j]) [0..<length ?h]"
    by (rule map_index [symmetric])
  also have "\<dots> = sample_weighted_hvp self x"
    using h entry by (simp add: sample_weighted_hvp_def del: tf_truediv.simps cong: map_cong)
  finally have "map (\<lambda>v. [v]) ?h = sample_weighted_hvp self x" .
  then show ?thesis
    using loop h by (simp add: call_def assms(1) Let_def split_beta bind_result_def)
qed

lemma times_Num_distrib: "0 < c \<Longrightarrow> (a + b) * Num c = a * Num c + b * Num c"
  by (cases a; cases b) (simp_all add: distrib_right)

lemma sum_list_times_Num:
  "0 < c \<Longrightarrow> sum_list (map (\<lambda>x. f x * Num c) xs) = sum_list (map f xs) * Num c"
  by (induction xs) (simp_all add: times_Num_distrib zero_tfloat_def)

lemma sum_list_map_blocks:
  "sum_list (map g (concat xss)) = sum_list (map (\<lambda>xs. sum_list (map g xs)) xss)"
  by (induction xss) simp_all

lemma sample_weighted_is_mean:
  fixes self :: "('f, 'l) cgd_ihvp"
  assumes "cg_n_hessian self = length (streamed_samples self)" and "0 < cg_n_hessian self"
  shows "sample_weighted_hvp self x = mean_sample_hvp self x"
proof -
  let ?n = "real (length (streamed_samples self))"
  have n: "0 < ?n"
    using assms by simp
  then have c: "0 < 1 / ?n"
    by simp
  have w: "tf_truediv (Num 1) (Num (real (cg_n_hessian self))) = Num (1 / ?n)"
    using n assms(1) by simp
  have entry: "sum_list (map (\<lambda>block. sum_list (map (\<lambda>elt. g elt * Num (1 / ?n))
          (zip (fst block) (snd block)))) (cg_train_set self)) =
      tf_truediv (sum_list (map g (streamed_samples self))) (Num ?n)"
    for g :: "'f \<times> 'l \<Rightarrow> tfloat"
  proof -
    let ?s = "sum_list (map g (streamed_samples self))"
    have "sum_list (map (\<lambda>block. sum_list (map (\<lambda>elt. g elt * Num (1 / ?n))
          (zip (fst block) (snd block)))) (cg_train_set self)) =
        sum_list (map (\<lambda>block. sum_list (map g (zip (fst block) (snd block))) * Num (1 / ?n))
          (cg_train_set self))"
      by (simp only: sum_list_times_Num [OF c])
    also have "\<dots> =
        sum_list (map (\<lambda>block. sum_list (map g (zip (fst block) (snd block))))
          (cg_train_set self)) * Num (1 / ?n)"
      by (rule sum_list_times_Num [OF c])
    also have "sum_list (map (\<lambda>block. sum_list (map g (zip (fst block) (snd block))))
          (cg_train_set self)) = ?s"
      by (simp add: streamed_samples_def sum_list_map_blocks comp_def)
    also have "?s * Num (1 / ?n) = tf_truediv ?s (Num ?n)"
      using n by (cases ?s) simp_all
    finally show ?thesis .
  qed
  show ?thesis
    by (simp only: sample_weighted_hvp_def mean_sample_hvp_def w entry)
qed

text \<open>
  C2, as the code has it. When the vector fits the weights, \<open>cardinality\<close> is the
  number of batches and the per-sample products have \<open>nb_params\<close> entries,
  \<open>__call__\<close> returns the sum, over all batches and all samples of a batch, of the
  per-sample Hessian-vector product times \<open>1 / n_hessian\<close>: each sample reaches
  \<open>__sub_call\<close> as a batch of one, so the weight's numerator is 1, not the batch size.
  \<open>n_hessian\<close> is the number of training samples that the constructor recorded: when it
  is the number of samples that the pass streams, and there is one at least, the result
  is the mean over the dataset of the per-sample Hessian-vector products.
\<close>

theorem call_mean_hvp:
  assumes "reshape_vector x_initial (cg_weight_sizes self) = Inr x"
    and "cg_cardinality self = int (length (cg_train_set self))"
    and "list_all (\<lambda>block. list_all (\<lambda>elt.
            length (concat (cg_jvp self x [fst elt] [snd elt])) = cg_nb_params self)
          (zip (fst block) (snd block))) (cg_train_set self)"
  shows "fst (call self heap x_initial) = Inr (sample_weighted_hvp self x) \<and>
     (cg_n_hessian self = length (streamed_samples self) \<and> 0 < cg_n_hessian self \<longrightarrow>
        fst (call self heap x_initial) = Inr (mean_sample_hvp self x))"
proof (intro conjI impI)
  show "fst (call self heap x_initial) = Inr (sample_weighted_hvp self x)"
    using assms by (rule call_accumulates)
next
  assume "cg_n_hessian self = length (streamed_samples self) \<and> 0 < cg_n_hessian self"
  then have "sample_weighted_hvp self x = mean_sample_hvp self x"
    using sample_weighted_is_mean [of self x] by blast
  then show "fst (call self heap x_initial) = Inr (mean_sample_hvp self x)"
    using call_accumulates [OF assms, of heap] by simp
qed

lemma toy_sample_weighted: "sample_weighted_hvp toy_cgd [[Num 1]] = [[Num (3 / 2)]]"
  by (simp add: sample_weighted_hvp_def toy_cgd_def zero_tfloat_def)

lemma toy_streamed_samples: "streamed_samples toy_cgd = [(2, 0), (4, - 1)]"
  by (simp add: streamed_samples_def toy_cgd_def)

lemma toy_mean_sample: "mean_sample_hvp toy_cgd [[Num 1]] = [[Num (3 / 2)]]"
  by (simp add: mean_sample_hvp_def toy_streamed_samples zero_tfloat_def)
    (simp add: toy_cgd_def)

theorem call_mean_hvp_witness:
  "fst (call toy_cgd [] [Num 1]) = Inr [[Num (3 / 2)]] \<and>
   mean_sample_hvp toy_cgd [[Num 1]] = [[Num (3 / 2)]] \<and>
   cg_n_hessian toy_cgd = length (streamed_samples toy_cgd)"
  using call_mean_hvp [OF toy_cgd_reshape [of 1], where heap = "[]"]
  by (simp add: toy_sample_weighted toy_mean_sample toy_streamed_samples toy_cgd_fields)
    (simp add: toy_cgd_def)

text \<open>
  C2 as the specification states it fails on one batch of two samples with Hessians \<open>1\<close>
  and \<open>2\<close>: \<open>__call__\<close> returns their mean action \<open>3 / 2\<close>, the sum scaled by batch size
  over sample count is \<open>3\<close>.
\<close>

theorem call_not_batch_weighted:
  "fst (call toy_cgd [] [Num 1]) = Inr [[Num (3 / 2)]] \<and>
   batch_weighted_hvp toy_cgd [[Num 1]] = [[Num 3]]"
proof -
  have "fst (call toy_cgd [] [Num 1]) = Inr (sample_weighted_hvp toy_cgd [[Num 1]])"
    by (rule call_accumulates [OF toy_cgd_reshape]) (simp_all add: toy_cgd_def)
  moreover have "batch_weighted_hvp toy_cgd [[Num 1]] = [[Num 3]]"
    by (simp add: batch_weighted_hvp_def toy_cgd_def zero_tfloat_def)
  ultimately show ?thesis
    by (simp add: toy_sample_weighted)
qed

end
